theory Spec2Isabelle
  imports Complex_Main "HOL-Library.Product_Lexorder"
begin

section \<open>The coordination database\<close>

text \<open>
  The servers \<^verbatim>\<open>main.py\<close>, \<^verbatim>\<open>http_server.py\<close> and \<^verbatim>\<open>mcp_server_fixed.py\<close> work on one
  SQLite file with the tables \<^verbatim>\<open>projects\<close>, \<^verbatim>\<open>tasks\<close>, \<^verbatim>\<open>todo_items\<close>,
  \<^verbatim>\<open>task_dependencies\<close>, \<^verbatim>\<open>todo_dependencies\<close>, \<^verbatim>\<open>todo_files\<close> and \<^verbatim>\<open>file_locks\<close>.
  Every tool function opens a connection, runs its statements and commits. A tool call
  is modelled as run alone: a function from the database to a reply and the database
  after the call. Calls whose statements alternate are not covered by these functions;
  for \<^verbatim>\<open>get_next_todo_item\<close> the two steps of a call are given as well.

  A table is the list of its rows in insertion order; a column is a record field named
  \<open>table_column\<close>. Status columns hold the text the code writes. A SQL \<^verbatim>\<open>NULL\<close> is
  \<open>None\<close>. \<^verbatim>\<open>file_locks\<close> is keyed by \<^verbatim>\<open>file_path\<close> (the code relies on it with
  \<^verbatim>\<open>INSERT OR REPLACE\<close>), so it is a map from the path to the \<^verbatim>\<open>locked_by\<close> column.
  The wall-clock columns (\<^verbatim>\<open>created_at\<close>, \<^verbatim>\<open>updated_at\<close>, \<^verbatim>\<open>locked_at\<close>) and the
  audit and websocket notifications of \<^verbatim>\<open>main.py\<close>, which never feed back into the
  tables above, are left out.
\<close>

record project_row =
  project_id :: int
  project_name :: string
  project_description :: string
  project_status :: string

record task_row =
  task_id :: int
  task_project_id :: int
  task_name :: string
  task_description :: string
  task_order_index :: int
  task_status :: string

record todo_row =
  todo_id :: int
  todo_task_id :: int
  todo_title :: string
  todo_description :: string
  todo_order_index :: int
  todo_status :: string
  todo_assigned_agent :: "string option"

record db =
  projects :: "project_row list"
  tasks :: "task_row list"
  todo_items :: "todo_row list"
  task_dependencies :: "(int \<times> int) list"
  todo_dependencies :: "(int \<times> int) list"
  todo_files :: "(int \<times> string) list"
  file_locks :: "string \<rightharpoonup> string"

definition empty_db :: db where
  "empty_db = \<lparr>projects = [], tasks = [], todo_items = [], task_dependencies = [],
     todo_dependencies = [], todo_files = [], file_locks = Map.empty\<rparr>"

text \<open>The error replies (\<^verbatim>\<open>{"error": ...}\<close>) of the tool functions.\<close>

datatype error =
    ProjectNotFound string
  | ProjectAlreadyExists string
  | TaskNotFound int
  | TodoNotFound int
  | InvalidStatus
  | AssignedToDifferentAgent string
  | LockedByAnotherAgent "string list"

section \<open>File locks (\<^verbatim>\<open>main.py\<close>, \<^verbatim>\<open>http_server.py\<close>, \<^verbatim>\<open>mcp_server_fixed.py\<close>)\<close>

text \<open>
  \<^verbatim>\<open>SELECT locked_by FROM file_locks WHERE file_path = ? AND locked_by != ?\<close> finds a row
  exactly when the path is locked by somebody else.
\<close>

definition locked_by_other :: "(string \<rightharpoonup> string) \<Rightarrow> string \<Rightarrow> string \<Rightarrow> bool" where
  "locked_by_other locks agent_id file_path =
     (case locks file_path of None \<Rightarrow> False | Some b \<Rightarrow> b \<noteq> agent_id)"

text \<open>The loop of \<^verbatim>\<open>INSERT OR REPLACE INTO file_locks\<close> over the requested paths.\<close>

fun insert_locks :: "string list \<Rightarrow> string \<Rightarrow> (string \<rightharpoonup> string) \<Rightarrow> (string \<rightharpoonup> string)" where
  "insert_locks [] agent_id locks = locks"
| "insert_locks (file_path # files) agent_id locks =
     insert_locks files agent_id (locks(file_path \<mapsto> agent_id))"

text \<open>
  \<^verbatim>\<open>lock_files\<close>: first collect the requested paths locked by another agent; if there
  are any, return the error before any write; otherwise lock every path. The three
  servers have the same body (\<^verbatim>\<open>main.py\<close> adds an audit event per path).
\<close>

definition lock_files :: "string list \<Rightarrow> string \<Rightarrow> db \<Rightarrow> (error + string list) \<times> db" where
  "lock_files files agent_id s =
     (let locked_by_others = filter (locked_by_other (file_locks s) agent_id) files
      in if locked_by_others \<noteq> [] then (Inl (LockedByAnotherAgent locked_by_others), s)
         else (Inr files, s\<lparr>file_locks := insert_locks files agent_id (file_locks s)\<rparr>))"

text \<open>
  \<^verbatim>\<open>unlock_files\<close>: one pass over the requested paths. A path with no row is skipped,
  a path locked by the caller is deleted and appended to \<^verbatim>\<open>unlocked_files\<close>, any other
  path is appended to \<^verbatim>\<open>not_owned\<close>. The reply always carries \<^verbatim>\<open>unlocked_files\<close>; it
  carries an \<^verbatim>\<open>"error"\<close> entry listing \<^verbatim>\<open>not_owned\<close> exactly when that list is not empty.
\<close>

record unlock_reply =
  unlocked_files :: "string list"
  not_owned :: "string list"

fun unlock_loop ::
  "string list \<Rightarrow> string \<Rightarrow> (string \<rightharpoonup> string) \<Rightarrow> string list \<Rightarrow> string list
     \<Rightarrow> (string \<rightharpoonup> string) \<times> string list \<times> string list" where
  "unlock_loop [] agent_id locks unlocked rejected = (locks, unlocked, rejected)"
| "unlock_loop (file_path # files) agent_id locks unlocked rejected =
     (case locks file_path of
        None \<Rightarrow> unlock_loop files agent_id locks unlocked rejected
      | Some b \<Rightarrow>
          if b = agent_id
          then unlock_loop files agent_id (locks(file_path := None)) (unlocked @ [file_path]) rejected
          else unlock_loop files agent_id locks unlocked (rejected @ [file_path]))"

definition unlock_files :: "string list \<Rightarrow> string \<Rightarrow> db \<Rightarrow> unlock_reply \<times> db" where
  "unlock_files files agent_id s =
     (case unlock_loop files agent_id (file_locks s) [] [] of
        (locks, unlocked, rejected) \<Rightarrow>
          (\<lparr>unlocked_files = unlocked, not_owned = rejected\<rparr>, s\<lparr>file_locks := locks\<rparr>))"

definition unlock_reply_has_error :: "unlock_reply \<Rightarrow> bool" where
  "unlock_reply_has_error r = (not_owned r \<noteq> [])"

section \<open>Finding the next todo item\<close>

text \<open>\<^verbatim>\<open>SELECT id FROM projects WHERE name = ?\<close> followed by \<^verbatim>\<open>fetchone()\<close>.\<close>

definition project_by_name :: "db \<Rightarrow> string \<Rightarrow> project_row option" where
  "project_by_name s name = find (\<lambda>p. project_name p = name) (projects s)"

text \<open>
  The first \<^verbatim>\<open>NOT EXISTS\<close> subquery of the selection: a row of \<^verbatim>\<open>todo_dependencies\<close>
  for this item, joined to the \<^verbatim>\<open>todo_items\<close> row it points to, whose status is not
  \<^verbatim>\<open>'completed'\<close>. The join drops a dependency whose target row does not exist.
\<close>

definition has_incomplete_dependency :: "db \<Rightarrow> todo_row \<Rightarrow> bool" where
  "has_incomplete_dependency s t =
     (\<exists>td \<in> set (todo_dependencies s). \<exists>dep \<in> set (todo_items s).
        snd td = todo_id dep \<and> fst td = todo_id t \<and> todo_status dep \<noteq> ''completed'')"

text \<open>
  The second \<^verbatim>\<open>NOT EXISTS\<close> subquery: a row of \<^verbatim>\<open>todo_files\<close> for this item joined
  to a \<^verbatim>\<open>file_locks\<close> row with \<^verbatim>\<open>locked_by != agent_id\<close>.
\<close>

definition has_foreign_lock :: "db \<Rightarrow> string \<Rightarrow> todo_row \<Rightarrow> bool" where
  "has_foreign_lock s agent_id t =
     (\<exists>tf \<in> set (todo_files s).
        fst tf = todo_id t \<and> locked_by_other (file_locks s) agent_id (snd tf))"

text \<open>
  The rows the \<^verbatim>\<open>WHERE\<close> clause of \<^verbatim>\<open>main.py\<close> and \<^verbatim>\<open>http_server.py\<close> keeps, each
  with the task it was joined to.
\<close>

definition available_todos :: "db \<Rightarrow> int \<Rightarrow> string \<Rightarrow> (task_row \<times> todo_row) list" where
  "available_todos s pid agent_id =
     [(task, t). t \<leftarrow> todo_items s, task \<leftarrow> tasks s,
        todo_task_id t = task_id task,
        task_project_id task = pid,
        todo_status t = ''pending'',
        todo_assigned_agent t = None,
        \<not> has_incomplete_dependency s t,
        \<not> has_foreign_lock s agent_id t]"

text \<open>The query of \<^verbatim>\<open>mcp_server_fixed.py\<close> has no subquery on \<^verbatim>\<open>file_locks\<close>.\<close>

definition fixed_available_todos :: "db \<Rightarrow> int \<Rightarrow> (task_row \<times> todo_row) list" where
  "fixed_available_todos s pid =
     [(task, t). t \<leftarrow> todo_items s, task \<leftarrow> tasks s,
        todo_task_id t = task_id task,
        task_project_id task = pid,
        todo_status t = ''pending'',
        todo_assigned_agent t = None,
        \<not> has_incomplete_dependency s t]"

text \<open>
  \<^verbatim>\<open>ORDER BY task.order_index, t.order_index LIMIT 1\<close> and \<^verbatim>\<open>fetchone()\<close>. SQL leaves the
  order of rows with equal keys open; the model keeps them in table order (the sort is
  stable).
\<close>

definition first_in_order :: "(task_row \<times> todo_row) list \<Rightarrow> todo_row option" where
  "first_in_order rows =
     (case sort_key (\<lambda>(task, t). (task_order_index task, todo_order_index t)) rows of
        [] \<Rightarrow> None
      | (task, t) # _ \<Rightarrow> Some t)"

text \<open>\<^verbatim>\<open>SELECT file_path FROM todo_files WHERE todo_id = ?\<close>.\<close>

definition files_of :: "db \<Rightarrow> int \<Rightarrow> string list" where
  "files_of s tid = map snd (filter (\<lambda>tf. fst tf = tid) (todo_files s))"

text \<open>\<^verbatim>\<open>UPDATE todo_items SET status = ?, assigned_agent = ? WHERE id = ?\<close>.\<close>

definition update_todo :: "int \<Rightarrow> string \<Rightarrow> string option \<Rightarrow> todo_row list \<Rightarrow> todo_row list" where
  "update_todo tid st agent rows =
     map (\<lambda>t. if todo_id t = tid then t\<lparr>todo_status := st, todo_assigned_agent := agent\<rparr> else t) rows"

text \<open>
  \<^verbatim>\<open>get_next_todo_item\<close> of \<^verbatim>\<open>main.py\<close> only reads: it returns the selected row and its
  files with the message "Todo item available for assignment. Call update_todo_status to
  claim it." The reply is \<open>Inr None\<close> for "No available todo items at this time".
\<close>

definition main_get_next_todo_item ::
  "string \<Rightarrow> string \<Rightarrow> db \<Rightarrow> (error + (todo_row \<times> string list) option) \<times> db" where
  "main_get_next_todo_item name agent_id s =
     (case project_by_name s name of
        None \<Rightarrow> (Inl (ProjectNotFound name), s)
      | Some project_row \<Rightarrow>
          (case first_in_order (available_todos s (project_id project_row) agent_id) of
             None \<Rightarrow> (Inr None, s)
           | Some row \<Rightarrow> (Inr (Some (row, files_of s (todo_id row))), s)))"

text \<open>
  \<^verbatim>\<open>get_next_todo_item\<close> of \<^verbatim>\<open>http_server.py\<close> runs the same query and then assigns the
  row it returned, with \<^verbatim>\<open>UPDATE todo_items SET assigned_agent = ?, status = 'in_progress'
  ... WHERE id = ?\<close>: the statement names the row by its id alone, does not test the
  row's status or agent again, and its row count is not read. The reply shows the row
  as updated. The function is the call run alone, with no statement of another call
  between its \<^verbatim>\<open>SELECT\<close> and its \<^verbatim>\<open>UPDATE\<close>.
\<close>

definition http_get_next_todo_item ::
  "string \<Rightarrow> string \<Rightarrow> db \<Rightarrow> (error + (todo_row \<times> string list) option) \<times> db" where
  "http_get_next_todo_item name agent_id s =
     (case project_by_name s name of
        None \<Rightarrow> (Inl (ProjectNotFound name), s)
      | Some project_row \<Rightarrow>
          (case first_in_order (available_todos s (project_id project_row) agent_id) of
             None \<Rightarrow> (Inr None, s)
           | Some row \<Rightarrow>
               (Inr (Some (row\<lparr>todo_status := ''in_progress'', todo_assigned_agent := Some agent_id\<rparr>,
                           files_of s (todo_id row))),
                s\<lparr>todo_items :=
                    update_todo (todo_id row) ''in_progress'' (Some agent_id) (todo_items s)\<rparr>)))"

text \<open>
  \<^verbatim>\<open>get_next_todo_item\<close> of \<^verbatim>\<open>mcp_server_fixed.py\<close>: the same two statements, on its
  own query.
\<close>

definition fixed_get_next_todo_item ::
  "string \<Rightarrow> string \<Rightarrow> db \<Rightarrow> (error + (todo_row \<times> string list) option) \<times> db" where
  "fixed_get_next_todo_item name agent_id s =
     (case project_by_name s name of
        None \<Rightarrow> (Inl (ProjectNotFound name), s)
      | Some project_row \<Rightarrow>
          (case first_in_order (fixed_available_todos s (project_id project_row)) of
             None \<Rightarrow> (Inr None, s)
           | Some row \<Rightarrow>
               (Inr (Some (row\<lparr>todo_status := ''in_progress'', todo_assigned_agent := Some agent_id\<rparr>,
                           files_of s (todo_id row))),
                s\<lparr>todo_items :=
                    update_todo (todo_id row) ''in_progress'' (Some agent_id) (todo_items s)\<rparr>)))"

text \<open>
  The two steps of such a call, for a history in which the statements of two calls
  alternate: the \<^verbatim>\<open>SELECT\<close> (of \<^verbatim>\<open>http_server.py\<close>, of \<^verbatim>\<open>mcp_server_fixed.py\<close>), which
  leaves the database as it is, and the rest of the call on the row that the \<^verbatim>\<open>SELECT\<close>
  returned, run on the database as it is by then.
\<close>

definition http_select_next :: "string \<Rightarrow> string \<Rightarrow> db \<Rightarrow> error + todo_row option" where
  "http_select_next name agent_id s =
     (case project_by_name s name of
        None \<Rightarrow> Inl (ProjectNotFound name)
      | Some project_row \<Rightarrow>
          Inr (first_in_order (available_todos s (project_id project_row) agent_id)))"

definition fixed_select_next :: "string \<Rightarrow> db \<Rightarrow> error + todo_row option" where
  "fixed_select_next name s =
     (case project_by_name s name of
        None \<Rightarrow> Inl (ProjectNotFound name)
      | Some project_row \<Rightarrow>
          Inr (first_in_order (fixed_available_todos s (project_id project_row))))"

definition assign_selected ::
  "error + todo_row option \<Rightarrow> string \<Rightarrow> db \<Rightarrow> (error + (todo_row \<times> string list) option) \<times> db" where
  "assign_selected selected agent_id s =
     (case selected of
        Inl e \<Rightarrow> (Inl e, s)
      | Inr None \<Rightarrow> (Inr None, s)
      | Inr (Some row) \<Rightarrow>
          (Inr (Some (row\<lparr>todo_status := ''in_progress'', todo_assigned_agent := Some agent_id\<rparr>,
                      files_of s (todo_id row))),
           s\<lparr>todo_items :=
               update_todo (todo_id row) ''in_progress'' (Some agent_id) (todo_items s)\<rparr>))"

section \<open>Updating the status of a todo item\<close>

definition valid_statuses :: "string list" where
  "valid_statuses = [''pending'', ''in_progress'', ''completed'', ''cancelled'']"

record status_reply =
  reply_id :: int
  reply_status :: string
  reply_assigned_agent :: "string option"

text \<open>
  The row \<^verbatim>\<open>main.py\<close> reads first: \<^verbatim>\<open>todo_items\<close> joined to its task and that task's
  project, so a todo item without both is "not found". The other two servers read
  \<^verbatim>\<open>todo_items\<close> alone.
\<close>

definition main_find_todo :: "db \<Rightarrow> int \<Rightarrow> todo_row option" where
  "main_find_todo s tid =
     (case [ti. ti \<leftarrow> todo_items s, t \<leftarrow> tasks s, p \<leftarrow> projects s,
              todo_task_id ti = task_id t, task_project_id t = project_id p, todo_id ti = tid] of
        [] \<Rightarrow> None
      | row # _ \<Rightarrow> Some row)"

definition find_todo :: "db \<Rightarrow> int \<Rightarrow> todo_row option" where
  "find_todo s tid = find (\<lambda>t. todo_id t = tid) (todo_items s)"

text \<open>
  The permission check of \<^verbatim>\<open>main.py\<close>,
  \<^verbatim>\<open>row["assigned_agent"] and row["assigned_agent"] != agent_id and status not in ["pending"]\<close>,
  gives the agent the error names. The first conjunct is Python truth: it is false for
  \<^verbatim>\<open>None\<close> and for the empty string.
\<close>

definition main_other_owner :: "todo_row \<Rightarrow> string \<Rightarrow> string \<Rightarrow> string option" where
  "main_other_owner row agent_id status =
     (case todo_assigned_agent row of
        None \<Rightarrow> None
      | Some a \<Rightarrow> if a \<noteq> [] \<and> a \<noteq> agent_id \<and> status \<notin> set [''pending''] then Some a else None)"

text \<open>
  The check of \<^verbatim>\<open>http_server.py\<close> and \<^verbatim>\<open>mcp_server_fixed.py\<close>,
  \<^verbatim>\<open>row["assigned_agent"] and row["assigned_agent"] != agent_id\<close>, has no third conjunct.
\<close>

definition http_other_owner :: "todo_row \<Rightarrow> string \<Rightarrow> string option" where
  "http_other_owner row agent_id =
     (case todo_assigned_agent row of
        None \<Rightarrow> None
      | Some a \<Rightarrow> if a \<noteq> [] \<and> a \<noteq> agent_id then Some a else None)"

text \<open>
  The loop of \<^verbatim>\<open>DELETE FROM file_locks WHERE file_path = ? AND locked_by = ?\<close> over the
  files of the item.
\<close>

fun delete_own_locks :: "string list \<Rightarrow> string \<Rightarrow> (string \<rightharpoonup> string) \<Rightarrow> (string \<rightharpoonup> string)" where
  "delete_own_locks [] agent_id locks = locks"
| "delete_own_locks (file_path # files) agent_id locks =
     delete_own_locks files agent_id
       (if locks file_path = Some agent_id then locks(file_path := None) else locks)"

text \<open>
  \<^verbatim>\<open>update_todo_status\<close> of \<^verbatim>\<open>main.py\<close>. The new \<^verbatim>\<open>assigned_agent\<close> is the caller for
  \<^verbatim>\<open>in_progress\<close> and \<^verbatim>\<open>None\<close> in the three other branches; then the file locks follow
  the new status: inserted for \<^verbatim>\<open>in_progress\<close>, the caller's own deleted for
  \<^verbatim>\<open>completed\<close> and \<^verbatim>\<open>cancelled\<close>, untouched for \<^verbatim>\<open>pending\<close>.
\<close>

definition main_update_todo_status ::
  "int \<Rightarrow> string \<Rightarrow> string \<Rightarrow> db \<Rightarrow> (error + status_reply) \<times> db" where
  "main_update_todo_status tid status agent_id s =
     (if status \<notin> set valid_statuses then (Inl InvalidStatus, s)
      else case main_find_todo s tid of
        None \<Rightarrow> (Inl (TodoNotFound tid), s)
      | Some row \<Rightarrow>
          (case main_other_owner row agent_id status of
             Some a \<Rightarrow> (Inl (AssignedToDifferentAgent a), s)
           | None \<Rightarrow>
               let assigned_agent =
                     (if status = ''in_progress'' then Some agent_id
                      else if status = ''pending'' then None
                      else if status \<in> set [''completed'', ''cancelled''] then None
                      else None);
                   files = files_of s tid;
                   locks =
                     (if status = ''in_progress'' then insert_locks files agent_id (file_locks s)
                      else if status \<in> set [''completed'', ''cancelled'']
                      then delete_own_locks files agent_id (file_locks s)
                      else file_locks s)
               in (Inr \<lparr>reply_id = tid, reply_status = status, reply_assigned_agent = assigned_agent\<rparr>,
                   s\<lparr>todo_items := update_todo tid status assigned_agent (todo_items s),
                     file_locks := locks\<rparr>)))"

text \<open>
  \<^verbatim>\<open>update_todo_status\<close> of \<^verbatim>\<open>http_server.py\<close>: \<^verbatim>\<open>update_fields\<close> gets an
  \<^verbatim>\<open>assigned_agent\<close> entry for \<^verbatim>\<open>in_progress\<close> (the caller) and for \<^verbatim>\<open>completed\<close> and
  \<^verbatim>\<open>cancelled\<close> (\<^verbatim>\<open>None\<close>); for \<^verbatim>\<open>pending\<close> the entry is missing and
  \<^verbatim>\<open>update_fields.get("assigned_agent")\<close> is \<^verbatim>\<open>None\<close> as well. No lock is touched.
\<close>

definition http_update_todo_status ::
  "int \<Rightarrow> string \<Rightarrow> string \<Rightarrow> db \<Rightarrow> (error + status_reply) \<times> db" where
  "http_update_todo_status tid status agent_id s =
     (if status \<notin> set valid_statuses then (Inl InvalidStatus, s)
      else case find_todo s tid of
        None \<Rightarrow> (Inl (TodoNotFound tid), s)
      | Some row \<Rightarrow>
          (case http_other_owner row agent_id of
             Some a \<Rightarrow> (Inl (AssignedToDifferentAgent a), s)
           | None \<Rightarrow>
               let assigned_agent =
                     (if status = ''in_progress'' then Some agent_id
                      else if status \<in> set [''completed'', ''cancelled''] then None
                      else None)
               in (Inr \<lparr>reply_id = tid, reply_status = status, reply_assigned_agent = assigned_agent\<rparr>,
                   s\<lparr>todo_items := update_todo tid status assigned_agent (todo_items s)\<rparr>)))"

text \<open>
  \<^verbatim>\<open>update_todo_status\<close> of \<^verbatim>\<open>mcp_server_fixed.py\<close>:
  \<^verbatim>\<open>assigned_agent = agent_id if status == "in_progress" else None\<close>, set to \<^verbatim>\<open>None\<close>
  once more for \<^verbatim>\<open>completed\<close> and \<^verbatim>\<open>cancelled\<close>.
\<close>

definition fixed_update_todo_status ::
  "int \<Rightarrow> string \<Rightarrow> string \<Rightarrow> db \<Rightarrow> (error + status_reply) \<times> db" where
  "fixed_update_todo_status tid status agent_id s =
     (if status \<notin> set valid_statuses then (Inl InvalidStatus, s)
      else case find_todo s tid of
        None \<Rightarrow> (Inl (TodoNotFound tid), s)
      | Some row \<Rightarrow>
          (case http_other_owner row agent_id of
             Some a \<Rightarrow> (Inl (AssignedToDifferentAgent a), s)
           | None \<Rightarrow>
               let assigned_agent0 = (if status = ''in_progress'' then Some agent_id else None);
                   assigned_agent =
                     (if status \<in> set [''completed'', ''cancelled''] then None else assigned_agent0)
               in (Inr \<lparr>reply_id = tid, reply_status = status, reply_assigned_agent = assigned_agent\<rparr>,
                   s\<lparr>todo_items := update_todo tid status assigned_agent (todo_items s)\<rparr>)))"

section \<open>Creating projects, tasks and todo items\<close>

text \<open>
  \<^verbatim>\<open>cursor.lastrowid\<close> after an \<^verbatim>\<open>INSERT\<close>: SQLite gives the new row the largest id of
  the table plus one.
\<close>

definition fresh_id :: "int list \<Rightarrow> int" where
  "fresh_id ids = fold max ids 0 + 1"

text \<open>
  \<^verbatim>\<open>create_project\<close>: the insert raises \<^verbatim>\<open>sqlite3.IntegrityError\<close> on a name that is
  already there, which the function turns into its error reply.
\<close>

definition create_project :: "string \<Rightarrow> string \<Rightarrow> db \<Rightarrow> (error + project_row) \<times> db" where
  "create_project name description s =
     (if \<exists>p \<in> set (projects s). project_name p = name then (Inl (ProjectAlreadyExists name), s)
      else let row = \<lparr>project_id = fresh_id (map project_id (projects s)), project_name = name,
                       project_description = description, project_status = ''pending''\<rparr>
           in (Inr row, s\<lparr>projects := projects s @ [row]\<rparr>))"

definition create_task ::
  "string \<Rightarrow> string \<Rightarrow> string \<Rightarrow> int \<Rightarrow> int list \<Rightarrow> db \<Rightarrow> (error + task_row) \<times> db" where
  "create_task pname name description order dependencies s =
     (case project_by_name s pname of
        None \<Rightarrow> (Inl (ProjectNotFound pname), s)
      | Some project_row \<Rightarrow>
          let row = \<lparr>task_id = fresh_id (map task_id (tasks s)),
                     task_project_id = project_id project_row, task_name = name,
                     task_description = description, task_order_index = order,
                     task_status = ''pending''\<rparr>
          in (Inr row,
              s\<lparr>tasks := tasks s @ [row],
                task_dependencies :=
                  task_dependencies s @ map (\<lambda>dep_id. (task_id row, dep_id)) dependencies\<rparr>))"

text \<open>
  The \<^verbatim>\<open>INSERT INTO todo_items\<close> with its dependency and file rows, shared by
  \<^verbatim>\<open>create_todo_item\<close> and \<^verbatim>\<open>insert_todo_item\<close>. The insert names neither \<^verbatim>\<open>status\<close>
  other than \<^verbatim>\<open>'pending'\<close> nor \<^verbatim>\<open>assigned_agent\<close>, which is \<^verbatim>\<open>NULL\<close>.
\<close>

definition add_todo ::
  "int \<Rightarrow> string \<Rightarrow> string \<Rightarrow> int \<Rightarrow> int list \<Rightarrow> string list \<Rightarrow> db \<Rightarrow> todo_row \<times> db" where
  "add_todo tsk title description order dependencies files s =
     (let row = \<lparr>todo_id = fresh_id (map todo_id (todo_items s)), todo_task_id = tsk,
                 todo_title = title, todo_description = description, todo_order_index = order,
                 todo_status = ''pending'', todo_assigned_agent = None\<rparr>
      in (row,
          s\<lparr>todo_items := todo_items s @ [row],
            todo_dependencies :=
              todo_dependencies s @ map (\<lambda>dep_id. (todo_id row, dep_id)) dependencies,
            todo_files := todo_files s @ map (\<lambda>file_path. (todo_id row, file_path)) files\<rparr>))"

text \<open>
  \<^verbatim>\<open>create_todo_item\<close> of \<^verbatim>\<open>main.py\<close> looks the task up joined to its project; the other
  two servers look it up alone.
\<close>

definition main_task_exists :: "db \<Rightarrow> int \<Rightarrow> bool" where
  "main_task_exists s tsk =
     (\<exists>t \<in> set (tasks s). \<exists>p \<in> set (projects s). task_project_id t = project_id p \<and> task_id t = tsk)"

definition task_exists :: "db \<Rightarrow> int \<Rightarrow> bool" where
  "task_exists s tsk = (\<exists>t \<in> set (tasks s). task_id t = tsk)"

definition main_create_todo_item ::
  "int \<Rightarrow> string \<Rightarrow> string \<Rightarrow> int \<Rightarrow> int list \<Rightarrow> string list \<Rightarrow> db \<Rightarrow> (error + todo_row) \<times> db" where
  "main_create_todo_item tsk title description order dependencies files s =
     (if \<not> main_task_exists s tsk then (Inl (TaskNotFound tsk), s)
      else case add_todo tsk title description order dependencies files s of
             (row, s') \<Rightarrow> (Inr row, s'))"

definition http_create_todo_item ::
  "int \<Rightarrow> string \<Rightarrow> string \<Rightarrow> int \<Rightarrow> int list \<Rightarrow> string list \<Rightarrow> db \<Rightarrow> (error + todo_row) \<times> db" where
  "http_create_todo_item tsk title description order dependencies files s =
     (if \<not> task_exists s tsk then (Inl (TaskNotFound tsk), s)
      else case add_todo tsk title description order dependencies files s of
             (row, s') \<Rightarrow> (Inr row, s'))"

text \<open>
  \<^verbatim>\<open>UPDATE todo_items SET order_index = order_index + 1 WHERE task_id = ? AND
  order_index >= ?\<close>, and the same without the bound.
\<close>

definition shift_from :: "int \<Rightarrow> int \<Rightarrow> todo_row list \<Rightarrow> todo_row list" where
  "shift_from tsk order rows =
     map (\<lambda>t. if todo_task_id t = tsk \<and> todo_order_index t \<ge> order
              then t\<lparr>todo_order_index := todo_order_index t + 1\<rparr> else t) rows"

definition shift_all :: "int \<Rightarrow> todo_row list \<Rightarrow> todo_row list" where
  "shift_all tsk rows =
     map (\<lambda>t. if todo_task_id t = tsk then t\<lparr>todo_order_index := todo_order_index t + 1\<rparr> else t) rows"

text \<open>
  \<^verbatim>\<open>insert_todo_item\<close>. \<^verbatim>\<open>if after_todo_id:\<close> is Python truth: \<^verbatim>\<open>None\<close> and \<^verbatim>\<open>0\<close> both
  take the \<^verbatim>\<open>else\<close> branch. \<^verbatim>\<open>main.py\<close> looks the predecessor up within the task,
  \<^verbatim>\<open>http_server.py\<close> and \<^verbatim>\<open>mcp_server_fixed.py\<close> by id alone.
\<close>

definition insert_after ::
  "(todo_row \<Rightarrow> bool) \<Rightarrow> int \<Rightarrow> string \<Rightarrow> string \<Rightarrow> int option \<Rightarrow> int list \<Rightarrow> string list \<Rightarrow> db
     \<Rightarrow> (error + todo_row) \<times> db" where
  "insert_after same_task tsk title description after_todo_id dependencies files s =
     (case (case after_todo_id of None \<Rightarrow> None | Some a \<Rightarrow> if a \<noteq> 0 then Some a else None) of
        Some a \<Rightarrow>
          (case find (\<lambda>t. todo_id t = a \<and> same_task t) (todo_items s) of
             None \<Rightarrow> (Inl (TodoNotFound a), s)
           | Some row \<Rightarrow>
               let order_index = todo_order_index row + 1;
                   s1 = s\<lparr>todo_items := shift_from tsk order_index (todo_items s)\<rparr>
               in case add_todo tsk title description order_index dependencies files s1 of
                    (new_row, s') \<Rightarrow> (Inr new_row, s'))
      | None \<Rightarrow>
          let s1 = s\<lparr>todo_items := shift_all tsk (todo_items s)\<rparr>
          in case add_todo tsk title description 0 dependencies files s1 of
               (new_row, s') \<Rightarrow> (Inr new_row, s'))"

definition main_insert_todo_item ::
  "int \<Rightarrow> string \<Rightarrow> string \<Rightarrow> int option \<Rightarrow> int list \<Rightarrow> string list \<Rightarrow> db
     \<Rightarrow> (error + todo_row) \<times> db" where
  "main_insert_todo_item tsk title description after_todo_id dependencies files s =
     (if \<not> task_exists s tsk then (Inl (TaskNotFound tsk), s)
      else insert_after (\<lambda>t. todo_task_id t = tsk) tsk title description after_todo_id
             dependencies files s)"

definition http_insert_todo_item ::
  "int \<Rightarrow> string \<Rightarrow> string \<Rightarrow> int option \<Rightarrow> int list \<Rightarrow> string list \<Rightarrow> db
     \<Rightarrow> (error + todo_row) \<times> db" where
  "http_insert_todo_item tsk title description after_todo_id dependencies files s =
     (if \<not> task_exists s tsk then (Inl (TaskNotFound tsk), s)
      else insert_after (\<lambda>t. True) tsk title description after_todo_id dependencies files s)"

section \<open>Project status\<close>

text \<open>
  \<^verbatim>\<open>get_project_status\<close> computes
  \<^verbatim>\<open>round((completed_todos / max(total_todos, 1)) * 100, 1)\<close>. Python's \<^verbatim>\<open>/\<close> raises
  \<^verbatim>\<open>ZeroDivisionError\<close> on a zero divisor, and \<^verbatim>\<open>cursor.execute\<close> raises
  \<^verbatim>\<open>sqlite3.OperationalError\<close> on a statement SQLite cannot prepare; either leaves the
  function as an exception.
\<close>

datatype py_exception = ZeroDivisionError | OperationalError string

text \<open>
  The quotient of two \<^verbatim>\<open>int\<close>s is a \<^verbatim>\<open>float\<close>, an IEEE 754 double; a double is modelled
  by the rational number it denotes. \<open>to_double x\<close> is the double nearest to \<open>x\<close>: the
  multiple of \<open>2 ^ (e - 52)\<close> nearest to \<open>x\<close>, where \<open>2 ^ e \<le> \<bar>x\<bar> < 2 ^ (e + 1)\<close>, a tie
  going to the even significand. Overflow and subnormal numbers are left out: the
  operands below are counts of rows, which SQLite keeps below \<open>2 ^ 63\<close>.
\<close>

function bit_length :: "int \<Rightarrow> int" where
  "bit_length n = (if n \<le> 0 then 0 else 1 + bit_length (n div 2))"
  by pat_completeness auto

termination bit_length
  by (relation "measure nat") auto

declare bit_length.simps [simp del]

definition pow2 :: "int \<Rightarrow> rat" where
  "pow2 e = (if 0 \<le> e then 2 ^ nat e else 1 / 2 ^ nat (- e))"

definition round_half_even :: "rat \<Rightarrow> int" where
  "round_half_even y =
     (let f = \<lfloor>y\<rfloor>; d = y - of_int f
      in if d < 1 / 2 then f else if d > 1 / 2 then f + 1
         else if even f then f else f + 1)"

definition binary_exponent :: "rat \<Rightarrow> int" where
  "binary_exponent x =
     (case quotient_of x of
        (n, d) \<Rightarrow>
          (let k = bit_length n - bit_length d
           in if pow2 k \<le> x then k else k - 1))"

definition to_double :: "rat \<Rightarrow> rat" where
  "to_double x =
     (if x = 0 then 0
      else let a = \<bar>x\<bar>; q = pow2 (binary_exponent a - 52)
           in sgn x * of_int (round_half_even (a / q)) * q)"

text \<open>
  \<^verbatim>\<open>a / b\<close> on two \<^verbatim>\<open>int\<close>s is the double nearest to the exact quotient, \<^verbatim>\<open>x * y\<close> on two
  \<^verbatim>\<open>float\<close>s the double nearest to the exact product, and \<^verbatim>\<open>round(x, 1)\<close> the double nearest
  to the multiple of one tenth nearest to \<open>x\<close>, a tie between two tenths going to the
  even one.
\<close>

definition py_truediv :: "int \<Rightarrow> int \<Rightarrow> py_exception + rat" where
  "py_truediv a b =
     (if b = 0 then Inl ZeroDivisionError else Inr (to_double (of_int a / of_int b)))"

definition py_mul :: "rat \<Rightarrow> rat \<Rightarrow> rat" where
  "py_mul x y = to_double (x * y)"

definition py_round1 :: "rat \<Rightarrow> rat" where
  "py_round1 x = to_double (of_int (round_half_even (x * 10)) / 10)"

definition completion_percentage :: "int \<Rightarrow> int \<Rightarrow> py_exception + rat" where
  "completion_percentage n_completed n_total =
     (case py_truediv n_completed (max n_total 1) of
        Inl e \<Rightarrow> Inl e
      | Inr q \<Rightarrow> Inr (py_round1 (py_mul q 100)))"

text \<open>
  The rows the grouped query has for one task (the todo items left-joined to it) and
  the rows of the overall query (the todo items joined to the tasks of the project, each
  with its task). \<^verbatim>\<open>COUNT(ti.id)\<close> and \<^verbatim>\<open>COUNT(*)\<close> count them all,
  \<^verbatim>\<open>COUNT(CASE WHEN ti.status = ... THEN 1 END)\<close> those in one status.
\<close>

definition task_todos :: "db \<Rightarrow> int \<Rightarrow> todo_row list" where
  "task_todos s tsk = filter (\<lambda>ti. todo_task_id ti = tsk) (todo_items s)"

definition project_rows :: "db \<Rightarrow> int \<Rightarrow> (todo_row \<times> task_row) list" where
  "project_rows s pid =
     [(ti, t). ti \<leftarrow> todo_items s, t \<leftarrow> tasks s,
        todo_task_id ti = task_id t, task_project_id t = pid]"

definition count_when :: "(string \<Rightarrow> bool) \<Rightarrow> todo_row list \<Rightarrow> int" where
  "count_when wanted rows = int (length (filter (\<lambda>ti. wanted (todo_status ti)) rows))"

definition count_task_todos :: "db \<Rightarrow> int \<Rightarrow> (string \<Rightarrow> bool) \<Rightarrow> int" where
  "count_task_todos s tsk wanted = count_when wanted (task_todos s tsk)"

definition count_rows ::
  "(todo_row \<times> task_row \<Rightarrow> string) \<Rightarrow> (string \<Rightarrow> bool) \<Rightarrow> (todo_row \<times> task_row) list \<Rightarrow> int" where
  "count_rows status_of wanted rows = int (length (filter (\<lambda>r. wanted (status_of r)) rows))"

record task_stats =
  stats_task :: task_row
  total_todos :: int
  completed_todos :: int
  in_progress_todos :: int
  pending_todos :: int
  task_completion_percentage :: "rat option"

record project_stats =
  stats_project :: project_row
  stats_tasks :: "task_stats list"
  overall_total_todos :: int
  overall_completed_todos :: int
  overall_in_progress_todos :: int
  overall_pending_todos :: int
  overall_completion_percentage :: rat

text \<open>
  The loop of \<^verbatim>\<open>main.py\<close> over the task rows, which gives each task its
  \<^verbatim>\<open>completion_percentage\<close>. (The list of todo items that \<^verbatim>\<open>main.py\<close> attaches to each
  task, with its files and dependencies, is left out of the reply.)
\<close>

fun main_task_stats :: "db \<Rightarrow> task_row list \<Rightarrow> py_exception + task_stats list" where
  "main_task_stats s [] = Inr []"
| "main_task_stats s (task_row # rest) =
     (let n_total = count_task_todos s (task_id task_row) (\<lambda>st. True);
          n_completed = count_task_todos s (task_id task_row) (\<lambda>st. st = ''completed'')
      in case completion_percentage n_completed n_total of
           Inl e \<Rightarrow> Inl e
         | Inr pct \<Rightarrow>
             (case main_task_stats s rest of
                Inl e \<Rightarrow> Inl e
              | Inr others \<Rightarrow>
                  Inr (\<lparr>stats_task = task_row, total_todos = n_total, completed_todos = n_completed,
                         in_progress_todos =
                           count_task_todos s (task_id task_row) (\<lambda>st. st = ''in_progress''),
                         pending_todos =
                           count_task_todos s (task_id task_row) (\<lambda>st. st = ''pending''),
                         task_completion_percentage = Some pct\<rparr> # others)))"

text \<open>
  The task summaries of \<^verbatim>\<open>http_server.py\<close> and \<^verbatim>\<open>mcp_server_fixed.py\<close> carry the counts
  only.
\<close>

definition http_task_stats :: "db \<Rightarrow> task_row list \<Rightarrow> task_stats list" where
  "http_task_stats s rows =
     map (\<lambda>task_row.
            \<lparr>stats_task = task_row,
              total_todos = count_task_todos s (task_id task_row) (\<lambda>st. True),
              completed_todos = count_task_todos s (task_id task_row) (\<lambda>st. st = ''completed''),
              in_progress_todos =
                count_task_todos s (task_id task_row) (\<lambda>st. st = ''in_progress''),
              pending_todos = count_task_todos s (task_id task_row) (\<lambda>st. st = ''pending''),
              task_completion_percentage = None\<rparr>) rows"

text \<open>
  The overall query and the reply built from its row. \<open>status_of\<close> is the column that
  the name in \<^verbatim>\<open>COUNT(CASE WHEN ... = 'completed' THEN 1 END)\<close> stands for. The result is
  \<open>Inl\<close> for an exception that leaves the function, \<open>Inr (Inl e)\<close> for the error reply and
  \<open>Inr (Inr r)\<close> for the status.
\<close>

definition overall_stats ::
  "(todo_row \<times> task_row \<Rightarrow> string) \<Rightarrow> db \<Rightarrow> project_row \<Rightarrow> task_stats list \<Rightarrow>
     py_exception + (error + project_stats)" where
  "overall_stats status_of s project_row task_list =
     (let rows = project_rows s (project_id project_row);
          n_total = int (length rows);
          n_completed = count_rows status_of (\<lambda>st. st = ''completed'') rows
      in case completion_percentage n_completed n_total of
           Inl e \<Rightarrow> Inl e
         | Inr pct \<Rightarrow>
             Inr (Inr \<lparr>stats_project = project_row, stats_tasks = task_list,
                        overall_total_todos = n_total, overall_completed_todos = n_completed,
                        overall_in_progress_todos =
                          count_rows status_of (\<lambda>st. st = ''in_progress'') rows,
                        overall_pending_todos =
                          count_rows status_of (\<lambda>st. st = ''pending'') rows,
                        overall_completion_percentage = pct\<rparr>))"

text \<open>
  \<^verbatim>\<open>get_project_status\<close> of \<^verbatim>\<open>main.py\<close> lists the tasks by id; its overall query counts
  on \<^verbatim>\<open>ti.status\<close>, the status of the todo item.
\<close>

definition main_get_project_status ::
  "string \<Rightarrow> db \<Rightarrow> py_exception + (error + project_stats)" where
  "main_get_project_status name s =
     (case project_by_name s name of
        None \<Rightarrow> Inr (Inl (ProjectNotFound name))
      | Some project_row \<Rightarrow>
          (case main_task_stats s
                  (sort_key task_id
                     (filter (\<lambda>t. task_project_id t = project_id project_row) (tasks s))) of
             Inl e \<Rightarrow> Inl e
           | Inr task_list \<Rightarrow> overall_stats (\<lambda>(ti, t). todo_status ti) s project_row task_list))"

text \<open>
  The columns of the two tables of the overall query, as the statements of the servers
  name them, and the way SQLite resolves a column name that comes without its table:
  the name must belong to exactly one of the tables of the \<^verbatim>\<open>FROM\<close> clause, each given
  here with its alias.
\<close>

definition todo_items_columns :: "string list" where
  "todo_items_columns =
     [''id'', ''task_id'', ''title'', ''description'', ''order_index'', ''status'',
      ''assigned_agent'', ''created_at'', ''updated_at'']"

definition tasks_columns :: "string list" where
  "tasks_columns =
     [''id'', ''project_id'', ''name'', ''description'', ''order_index'', ''status'',
      ''created_at'', ''updated_at'']"

definition resolve_column :: "string \<Rightarrow> (string \<times> string list) list \<Rightarrow> py_exception + string" where
  "resolve_column c tables =
     (case filter (\<lambda>tbl. c \<in> set (snd tbl)) tables of
        [] \<Rightarrow> Inl (OperationalError (''no such column: '' @ c))
      | [tbl] \<Rightarrow> Inr (fst tbl)
      | _ \<Rightarrow> Inl (OperationalError (''ambiguous column name: '' @ c)))"

text \<open>
  \<^verbatim>\<open>get_project_status\<close> of \<^verbatim>\<open>http_server.py\<close> and of \<^verbatim>\<open>mcp_server_fixed.py\<close> lists the
  tasks by \<^verbatim>\<open>order_index\<close>. Its overall query counts on \<^verbatim>\<open>status\<close>, without a table, over
  \<^verbatim>\<open>todo_items ti JOIN tasks t\<close>; the statement is run after the task summaries are built.
\<close>

definition http_get_project_status ::
  "string \<Rightarrow> db \<Rightarrow> py_exception + (error + project_stats)" where
  "http_get_project_status name s =
     (case project_by_name s name of
        None \<Rightarrow> Inr (Inl (ProjectNotFound name))
      | Some project_row \<Rightarrow>
          (let task_list =
                 http_task_stats s
                   (sort_key task_order_index
                      (filter (\<lambda>t. task_project_id t = project_id project_row) (tasks s)))
           in case resolve_column ''status''
                     [(''ti'', todo_items_columns), (''t'', tasks_columns)] of
                Inl e \<Rightarrow> Inl e
              | Inr alias \<Rightarrow>
                  overall_stats
                    (if alias = ''ti'' then (\<lambda>(ti, t). todo_status ti)
                     else (\<lambda>(ti, t). task_status t))
                    s project_row task_list))"

text \<open>
  What a task summary of \<^verbatim>\<open>main.py\<close> holds: the counts of its task and the percentage
  computed from the first two.
\<close>

definition task_stats_ok :: "db \<Rightarrow> task_stats \<Rightarrow> bool" where
  "task_stats_ok s ts \<longleftrightarrow>
     total_todos ts = count_task_todos s (task_id (stats_task ts)) (\<lambda>st. True)
     \<and> completed_todos ts =
         count_task_todos s (task_id (stats_task ts)) (\<lambda>st. st = ''completed'')
     \<and> in_progress_todos ts =
         count_task_todos s (task_id (stats_task ts)) (\<lambda>st. st = ''in_progress'')
     \<and> pending_todos ts =
         count_task_todos s (task_id (stats_task ts)) (\<lambda>st. st = ''pending'')
     \<and> task_completion_percentage ts =
         Some (py_round1 (py_mul (to_double (of_int (completed_todos ts) /
                                              of_int (max (total_todos ts) 1))) 100))"

section \<open>Histories of tool calls\<close>

text \<open>
  The tools that write, over the three servers that share the database. A reachable
  database is the result of a list of such calls on the empty database.
\<close>

datatype call =
    CreateProject string string
  | CreateTask string string string int "int list"
  | MainCreateTodoItem int string string int "int list" "string list"
  | HttpCreateTodoItem int string string int "int list" "string list"
  | MainInsertTodoItem int string string "int option" "int list" "string list"
  | HttpInsertTodoItem int string string "int option" "int list" "string list"
  | MainGetNextTodoItem string string
  | HttpGetNextTodoItem string string
  | FixedGetNextTodoItem string string
  | MainUpdateTodoStatus int string string
  | HttpUpdateTodoStatus int string string
  | FixedUpdateTodoStatus int string string
  | LockFiles "string list" string
  | UnlockFiles "string list" string

fun run_call :: "call \<Rightarrow> db \<Rightarrow> db" where
  "run_call (CreateProject name description) s = snd (create_project name description s)"
| "run_call (CreateTask pname name description order deps) s =
     snd (create_task pname name description order deps s)"
| "run_call (MainCreateTodoItem tsk title description order deps files) s =
     snd (main_create_todo_item tsk title description order deps files s)"
| "run_call (HttpCreateTodoItem tsk title description order deps files) s =
     snd (http_create_todo_item tsk title description order deps files s)"
| "run_call (MainInsertTodoItem tsk title description after deps files) s =
     snd (main_insert_todo_item tsk title description after deps files s)"
| "run_call (HttpInsertTodoItem tsk title description after deps files) s =
     snd (http_insert_todo_item tsk title description after deps files s)"
| "run_call (MainGetNextTodoItem name agent_id) s = snd (main_get_next_todo_item name agent_id s)"
| "run_call (HttpGetNextTodoItem name agent_id) s = snd (http_get_next_todo_item name agent_id s)"
| "run_call (FixedGetNextTodoItem name agent_id) s = snd (fixed_get_next_todo_item name agent_id s)"
| "run_call (MainUpdateTodoStatus tid status agent_id) s =
     snd (main_update_todo_status tid status agent_id s)"
| "run_call (HttpUpdateTodoStatus tid status agent_id) s =
     snd (http_update_todo_status tid status agent_id s)"
| "run_call (FixedUpdateTodoStatus tid status agent_id) s =
     snd (fixed_update_todo_status tid status agent_id s)"
| "run_call (LockFiles files agent_id) s = snd (lock_files files agent_id s)"
| "run_call (UnlockFiles files agent_id) s = snd (unlock_files files agent_id s)"

fun run_calls :: "call list \<Rightarrow> db \<Rightarrow> db" where
  "run_calls [] s = s"
| "run_calls (c # cs) s = run_calls cs (run_call c s)"

text \<open>The coupling of status and agent on one row, and on every row of the table.\<close>

definition coupled :: "todo_row \<Rightarrow> bool" where
  "coupled t = (todo_status t = ''in_progress'' \<longleftrightarrow> todo_assigned_agent t \<noteq> None)"

definition all_coupled :: "db \<Rightarrow> bool" where
  "all_coupled s = (\<forall>t \<in> set (todo_items s). coupled t)"

section \<open>The server of \<^verbatim>\<open>server.py\<close>\<close>

text \<open>
  \<^verbatim>\<open>server.py\<close> (class \<^verbatim>\<open>AgentCoordinatorServer\<close>) has its own schema: a task and a todo
  item carry their dependencies as a JSON list in a \<^verbatim>\<open>dependencies\<close> column (a list of
  ids here), there is no \<^verbatim>\<open>assigned_agent\<close> column, and locks are the columns
  \<^verbatim>\<open>locked\<close> and \<^verbatim>\<open>locked_by\<close> of a \<^verbatim>\<open>files\<close> table whose rows \<^verbatim>\<open>todo_item_files\<close>
  links to todo items. The code looks a file up by path and inserts it only when the
  lookup fails. A row inserted by \<^verbatim>\<open>INSERT INTO files (path)\<close> takes the column
  defaults, which the code reads as unlocked.
\<close>

record server_task_row =
  stask_id :: int
  stask_name :: string
  stask_description :: string
  stask_project_id :: int
  stask_status :: string
  stask_order :: int
  stask_dependencies :: "int list"

record server_todo_row =
  stodo_id :: int
  stodo_title :: string
  stodo_description :: string
  stodo_task_id :: int
  stodo_status :: string
  stodo_order :: int
  stodo_dependencies :: "int list"

record server_file_row =
  sfile_id :: int
  sfile_path :: string
  sfile_locked :: bool
  sfile_locked_by :: "string option"

record server_db =
  server_projects :: "project_row list"
  server_tasks :: "server_task_row list"
  server_todo_items :: "server_todo_row list"
  server_files :: "server_file_row list"
  server_todo_item_files :: "(int \<times> int) list"

definition empty_server_db :: server_db where
  "empty_server_db = \<lparr>server_projects = [], server_tasks = [], server_todo_items = [],
     server_files = [], server_todo_item_files = []\<rparr>"

definition server_create_project ::
  "string \<Rightarrow> string \<Rightarrow> server_db \<Rightarrow> (error + project_row) \<times> server_db" where
  "server_create_project name description s =
     (if \<exists>p \<in> set (server_projects s). project_name p = name
      then (Inl (ProjectAlreadyExists name), s)
      else let row = \<lparr>project_id = fresh_id (map project_id (server_projects s)),
                       project_name = name, project_description = description,
                       project_status = ''in_progress''\<rparr>
           in (Inr row, s\<lparr>server_projects := server_projects s @ [row]\<rparr>))"

definition server_create_task ::
  "string \<Rightarrow> string \<Rightarrow> string \<Rightarrow> int \<Rightarrow> int list \<Rightarrow> server_db
     \<Rightarrow> (error + server_task_row) \<times> server_db" where
  "server_create_task pname name description order dependencies s =
     (case find (\<lambda>p. project_name p = pname) (server_projects s) of
        None \<Rightarrow> (Inl (ProjectNotFound pname), s)
      | Some project_row \<Rightarrow>
          let row = \<lparr>stask_id = fresh_id (map stask_id (server_tasks s)), stask_name = name,
                     stask_description = description, stask_project_id = project_id project_row,
                     stask_status = ''pending'', stask_order = order,
                     stask_dependencies = dependencies\<rparr>
          in (Inr row, s\<lparr>server_tasks := server_tasks s @ [row]\<rparr>))"

text \<open>The get-or-create loop over the files of a new todo item.\<close>

fun server_link_files :: "int \<Rightarrow> string list \<Rightarrow> server_db \<Rightarrow> server_db" where
  "server_link_files tid [] s = s"
| "server_link_files tid (p # ps) s =
     (case find (\<lambda>f. sfile_path f = p) (server_files s) of
        None \<Rightarrow>
          let fid = fresh_id (map sfile_id (server_files s))
          in server_link_files tid ps
               (s\<lparr>server_files := server_files s @
                     [\<lparr>sfile_id = fid, sfile_path = p, sfile_locked = False,
                       sfile_locked_by = None\<rparr>],
                   server_todo_item_files := server_todo_item_files s @ [(tid, fid)]\<rparr>)
      | Some file_record \<Rightarrow>
          server_link_files tid ps
            (s\<lparr>server_todo_item_files :=
                 server_todo_item_files s @ [(tid, sfile_id file_record)]\<rparr>))"

definition server_create_todo_item ::
  "int \<Rightarrow> string \<Rightarrow> string \<Rightarrow> int \<Rightarrow> int list \<Rightarrow> string list \<Rightarrow> server_db
     \<Rightarrow> (error + server_todo_row) \<times> server_db" where
  "server_create_todo_item tsk title description order dependencies files s =
     (if \<not> (\<exists>t \<in> set (server_tasks s). stask_id t = tsk) then (Inl (TaskNotFound tsk), s)
      else let row = \<lparr>stodo_id = fresh_id (map stodo_id (server_todo_items s)),
                       stodo_title = title, stodo_description = description,
                       stodo_task_id = tsk, stodo_status = ''pending'', stodo_order = order,
                       stodo_dependencies = dependencies\<rparr>
           in (Inr row,
               server_link_files (stodo_id row) files
                 (s\<lparr>server_todo_items := server_todo_items s @ [row]\<rparr>)))"

text \<open>
  \<^verbatim>\<open>_get_next_todo_item\<close>: the todo items of the project in the order of
  \<^verbatim>\<open>ORDER BY t."order", ti."order"\<close>, each with its task; the ids of the completed ones;
  then the first item that passes the four checks of the loop.
\<close>

definition server_project_todos :: "server_db \<Rightarrow> int \<Rightarrow> (server_task_row \<times> server_todo_row) list" where
  "server_project_todos s pid =
     sort_key (\<lambda>(t, ti). (stask_order t, stodo_order ti))
       [(t, ti). ti \<leftarrow> server_todo_items s, t \<leftarrow> server_tasks s,
          stodo_task_id ti = stask_id t, stask_project_id t = pid]"

definition server_completed_ids :: "server_db \<Rightarrow> int \<Rightarrow> int list" where
  "server_completed_ids s pid =
     [stodo_id ti. ti \<leftarrow> server_todo_items s, t \<leftarrow> server_tasks s,
        stodo_task_id ti = stask_id t, stask_project_id t = pid, stodo_status ti = ''completed'']"

text \<open>
  \<^verbatim>\<open>SELECT COUNT(*) FROM tasks WHERE id IN (...) AND status != 'completed'\<close>, run only
  when the task has dependencies.
\<close>

definition server_incomplete_tasks :: "server_db \<Rightarrow> int list \<Rightarrow> nat" where
  "server_incomplete_tasks s task_deps =
     length (filter (\<lambda>t. stask_id t \<in> set task_deps \<and> stask_status t \<noteq> ''completed'')
               (server_tasks s))"

definition server_files_of :: "server_db \<Rightarrow> int \<Rightarrow> server_file_row list" where
  "server_files_of s tid =
     [f. f \<leftarrow> server_files s, tif \<leftarrow> server_todo_item_files s,
        sfile_id f = snd tif, fst tif = tid]"

definition server_item_available :: "server_db \<Rightarrow> int list \<Rightarrow> server_task_row \<times> server_todo_row \<Rightarrow> bool" where
  "server_item_available s completed_ids item =
     (case item of (t, ti) \<Rightarrow>
        \<not> stodo_status ti \<noteq> ''pending''
        \<and> \<not> (stask_dependencies t \<noteq> [] \<and> server_incomplete_tasks s (stask_dependencies t) > 0)
        \<and> (\<forall>dep_id \<in> set (stodo_dependencies ti). dep_id \<in> set completed_ids)
        \<and> filter sfile_locked (server_files_of s (stodo_id ti)) = [])"

definition server_get_next_todo_item ::
  "string \<Rightarrow> string \<Rightarrow> server_db \<Rightarrow> (error + (server_todo_row \<times> string list) option) \<times> server_db" where
  "server_get_next_todo_item pname agent_id s =
     (case find (\<lambda>p. project_name p = pname) (server_projects s) of
        None \<Rightarrow> (Inl (ProjectNotFound pname), s)
      | Some project_row \<Rightarrow>
          (case find (server_item_available s (server_completed_ids s (project_id project_row)))
                  (server_project_todos s (project_id project_row)) of
             None \<Rightarrow> (Inr None, s)
           | Some (t, ti) \<Rightarrow>
               (Inr (Some (ti, map sfile_path (server_files_of s (stodo_id ti)))), s)))"

text \<open>
  \<^verbatim>\<open>_update_todo_status\<close> writes the status it is given and then locks (for
  \<^verbatim>\<open>in_progress\<close>) or unlocks (for \<^verbatim>\<open>completed\<close> and \<^verbatim>\<open>cancelled\<close>) every file of the item.
\<close>

definition server_update_todo_status ::
  "int \<Rightarrow> string \<Rightarrow> string \<Rightarrow> server_db \<Rightarrow> (error + int \<times> string) \<times> server_db" where
  "server_update_todo_status tid status agent_id s =
     (case find (\<lambda>ti. stodo_id ti = tid) (server_todo_items s) of
        None \<Rightarrow> (Inl (TodoNotFound tid), s)
      | Some todo \<Rightarrow>
          let items = map (\<lambda>ti. if stodo_id ti = tid then ti\<lparr>stodo_status := status\<rparr> else ti)
                        (server_todo_items s);
              linked = (\<lambda>f. \<exists>tif \<in> set (server_todo_item_files s).
                               fst tif = tid \<and> snd tif = sfile_id f);
              files =
                (if status = ''in_progress''
                 then map (\<lambda>f. if linked f then f\<lparr>sfile_locked := True, sfile_locked_by := Some agent_id\<rparr>
                               else f) (server_files s)
                 else if status \<in> set [''completed'', ''cancelled'']
                 then map (\<lambda>f. if linked f then f\<lparr>sfile_locked := False, sfile_locked_by := None\<rparr>
                               else f) (server_files s)
                 else server_files s)
          in (Inr (tid, status), s\<lparr>server_todo_items := items, server_files := files\<rparr>))"

text \<open>
  \<^verbatim>\<open>_lock_files\<close> goes through the paths one by one: a path with no row gets a locked
  row, an unlocked row is locked, and a locked row (whoever holds it) goes to the
  \<^verbatim>\<open>failed\<close> list with its holder. The reply is the pair of lists \<^verbatim>\<open>locked\<close> and
  \<^verbatim>\<open>failed\<close>.
\<close>

record server_lock_reply =
  reply_locked :: "string list"
  reply_failed :: "(string \<times> string option) list"

fun server_lock_loop ::
  "string list \<Rightarrow> string \<Rightarrow> server_file_row list \<Rightarrow> string list \<Rightarrow> (string \<times> string option) list
     \<Rightarrow> server_file_row list \<times> string list \<times> (string \<times> string option) list" where
  "server_lock_loop [] agent_id files locked_files failed_files = (files, locked_files, failed_files)"
| "server_lock_loop (p # ps) agent_id files locked_files failed_files =
     (case find (\<lambda>f. sfile_path f = p) files of
        None \<Rightarrow>
          server_lock_loop ps agent_id
            (files @ [\<lparr>sfile_id = fresh_id (map sfile_id files), sfile_path = p,
                        sfile_locked = True, sfile_locked_by = Some agent_id\<rparr>])
            (locked_files @ [p]) failed_files
      | Some file_record \<Rightarrow>
          if \<not> sfile_locked file_record
          then server_lock_loop ps agent_id
                 (map (\<lambda>f. if sfile_id f = sfile_id file_record
                           then f\<lparr>sfile_locked := True, sfile_locked_by := Some agent_id\<rparr> else f)
                    files)
                 (locked_files @ [p]) failed_files
          else server_lock_loop ps agent_id files locked_files
                 (failed_files @ [(p, sfile_locked_by file_record)]))"

definition server_lock_files :: "string list \<Rightarrow> string \<Rightarrow> server_db \<Rightarrow> server_lock_reply \<times> server_db" where
  "server_lock_files files agent_id s =
     (case server_lock_loop files agent_id (server_files s) [] [] of
        (rows, locked_files, failed_files) \<Rightarrow>
          (\<lparr>reply_locked = locked_files, reply_failed = failed_files\<rparr>, s\<lparr>server_files := rows\<rparr>))"

text \<open>
  \<^verbatim>\<open>_unlock_files\<close>: for each path the row with \<^verbatim>\<open>locked = 1\<close>, if any; it is unlocked
  when the caller holds it and reported in \<^verbatim>\<open>failed\<close> otherwise.
\<close>

record server_unlock_reply =
  reply_unlocked :: "string list"
  reply_unlock_failed :: "(string \<times> string option) list"

fun server_unlock_loop ::
  "string list \<Rightarrow> string \<Rightarrow> server_file_row list \<Rightarrow> string list \<Rightarrow> (string \<times> string option) list
     \<Rightarrow> server_file_row list \<times> string list \<times> (string \<times> string option) list" where
  "server_unlock_loop [] agent_id files released failed_files =
     (files, released, failed_files)"
| "server_unlock_loop (p # ps) agent_id files released failed_files =
     (case find (\<lambda>f. sfile_path f = p \<and> sfile_locked f) files of
        None \<Rightarrow> server_unlock_loop ps agent_id files released failed_files
      | Some file_record \<Rightarrow>
          if sfile_locked_by file_record = Some agent_id
          then server_unlock_loop ps agent_id
                 (map (\<lambda>f. if sfile_id f = sfile_id file_record
                           then f\<lparr>sfile_locked := False, sfile_locked_by := None\<rparr> else f)
                    files)
                 (released @ [p]) failed_files
          else server_unlock_loop ps agent_id files released
                 (failed_files @ [(p, sfile_locked_by file_record)]))"

definition server_unlock_files ::
  "string list \<Rightarrow> string \<Rightarrow> server_db \<Rightarrow> server_unlock_reply \<times> server_db" where
  "server_unlock_files files agent_id s =
     (case server_unlock_loop files agent_id (server_files s) [] [] of
        (rows, released, failed_files) \<Rightarrow>
          (\<lparr>reply_unlocked = released, reply_unlock_failed = failed_files\<rparr>, s\<lparr>server_files := rows\<rparr>))"

text \<open>Who holds a path in the \<^verbatim>\<open>files\<close> table: the holder of its locked row, if any.\<close>

definition server_holder :: "server_db \<Rightarrow> string \<Rightarrow> string option" where
  "server_holder s p =
     (case find (\<lambda>f. sfile_path f = p \<and> sfile_locked f) (server_files s) of
        None \<Rightarrow> None
      | Some f \<Rightarrow> sfile_locked_by f)"

text \<open>
  A todo item id that the selection of \<^verbatim>\<open>get_next_todo_item\<close> can still return: some
  row with this id is pending and unassigned.
\<close>

definition claimable :: "db \<Rightarrow> int \<Rightarrow> bool" where
  "claimable s tid =
     (\<exists>t \<in> set (todo_items s). todo_id t = tid \<and> todo_status t = ''pending''
        \<and> todo_assigned_agent t = None)"

section \<open>Example databases\<close>

text \<open>Two paths held by \<^verbatim>\<open>agent1\<close>, in the database of the three servers.\<close>

definition locks_demo :: db where
  "locks_demo = snd (lock_files [''x'', ''y''] ''agent1'' empty_db)"

text \<open>The path \<^verbatim>\<open>b\<close> held by \<^verbatim>\<open>agent2\<close>, in the database of \<^verbatim>\<open>server.py\<close>.\<close>

definition server_locks_demo :: server_db where
  "server_locks_demo = snd (server_lock_files [''b''] ''agent2'' empty_server_db)"

text \<open>
  The plan of the scenario: project \<^verbatim>\<open>P\<close>, task \<^verbatim>\<open>T\<close>, item \<^verbatim>\<open>A\<close> and item \<^verbatim>\<open>B\<close>, which
  depends on \<^verbatim>\<open>A\<close>; both touch \<^verbatim>\<open>f1.txt\<close>. In \<open>held_demo\<close> the file is locked by
  \<^verbatim>\<open>agent1\<close>.
\<close>

definition plan_demo :: db where
  "plan_demo = run_calls
     [CreateProject ''P'' ''plan'', CreateTask ''P'' ''T'' ''task'' 0 [],
      MainCreateTodoItem 1 ''A'' '''' 0 [] [''f1.txt''],
      MainCreateTodoItem 1 ''B'' '''' 1 [1] [''f1.txt'']] empty_db"

definition item_A :: todo_row where
  "item_A = \<lparr>todo_id = 1, todo_task_id = 1, todo_title = ''A'', todo_description = '''',
     todo_order_index = 0, todo_status = ''pending'', todo_assigned_agent = None\<rparr>"

definition item_B :: todo_row where
  "item_B = \<lparr>todo_id = 2, todo_task_id = 1, todo_title = ''B'', todo_description = '''',
     todo_order_index = 1, todo_status = ''pending'', todo_assigned_agent = None\<rparr>"

definition held_demo :: db where
  "held_demo = run_call (LockFiles [''f1.txt''] ''agent1'') plan_demo"

text \<open>One project with one task and one item on \<^verbatim>\<open>f1.txt\<close>, in the database of \<^verbatim>\<open>server.py\<close>.\<close>

definition server_plan_demo :: server_db where
  "server_plan_demo =
     snd (server_create_todo_item 1 ''A'' '''' 0 [] [''f1.txt'']
       (snd (server_create_task ''P'' ''T'' ''task'' 0 []
         (snd (server_create_project ''P'' ''plan'' empty_server_db)))))"

definition server_item_A :: server_todo_row where
  "server_item_A = \<lparr>stodo_id = 1, stodo_title = ''A'', stodo_description = '''',
     stodo_task_id = 1, stodo_status = ''pending'', stodo_order = 0, stodo_dependencies = []\<rparr>"

text \<open>
  Item \<^verbatim>\<open>A\<close> claimed by \<^verbatim>\<open>agent1\<close> through \<^verbatim>\<open>http_server.py\<close>, started by \<^verbatim>\<open>agent1\<close>
  through \<^verbatim>\<open>main.py\<close>, and started and completed by \<^verbatim>\<open>agent1\<close> through \<^verbatim>\<open>main.py\<close>.
\<close>

definition claimed_demo :: db where
  "claimed_demo = run_call (HttpGetNextTodoItem ''P'' ''agent1'') plan_demo"

definition started_demo :: db where
  "started_demo = run_call (MainUpdateTodoStatus 1 ''in_progress'' ''agent1'') plan_demo"

definition done_demo :: db where
  "done_demo = run_call (MainUpdateTodoStatus 1 ''completed'' ''agent1'') started_demo"

text \<open>
  Two tasks, the second depending on the first. Item \<^verbatim>\<open>A\<close> of the first task is in
  progress under \<^verbatim>\<open>agent1\<close>; item \<^verbatim>\<open>B\<close> of the second task is pending. The same plan in
  the database of \<^verbatim>\<open>server.py\<close>.
\<close>

definition tasks_demo :: db where
  "tasks_demo = run_calls
     [CreateProject ''P'' ''plan'', CreateTask ''P'' ''T1'' ''first'' 0 [],
      CreateTask ''P'' ''T2'' ''second'' 1 [1],
      MainCreateTodoItem 1 ''A'' '''' 0 [] [],
      MainCreateTodoItem 2 ''B'' '''' 0 [] [],
      MainUpdateTodoStatus 1 ''in_progress'' ''agent1''] empty_db"

definition task2_item_B :: todo_row where
  "task2_item_B = \<lparr>todo_id = 2, todo_task_id = 2, todo_title = ''B'', todo_description = '''',
     todo_order_index = 0, todo_status = ''pending'', todo_assigned_agent = None\<rparr>"

definition server_tasks_demo :: server_db where
  "server_tasks_demo =
     snd (server_update_todo_status 1 ''in_progress'' ''agent1''
       (snd (server_create_todo_item 2 ''B'' '''' 0 [] []
         (snd (server_create_todo_item 1 ''A'' '''' 0 [] []
           (snd (server_create_task ''P'' ''T2'' ''second'' 1 [1]
             (snd (server_create_task ''P'' ''T1'' ''first'' 0 []
               (snd (server_create_project ''P'' ''plan'' empty_server_db)))))))))))"

text \<open>A project with one task and no todo item.\<close>

definition empty_task_demo :: db where
  "empty_task_demo = run_calls
     [CreateProject ''P'' ''plan'', CreateTask ''P'' ''T'' ''task'' 0 []] empty_db"

text \<open>
  The plan with item \<^verbatim>\<open>A\<close> completed and a third item \<^verbatim>\<open>C\<close>: one of the three items is
  completed, two are pending.
\<close>

definition one_of_three_demo :: db where
  "one_of_three_demo = run_call (MainCreateTodoItem 1 ''C'' '''' 2 [] []) done_demo"

text \<open>
  For the \<^verbatim>\<open>files\<close> table of \<^verbatim>\<open>server.py\<close>: a path is held by the agent, or by somebody
  else, when a locked row of this path says so; releasing the agent's locks on a list of
  paths clears the two lock columns of the rows concerned.
\<close>

definition server_own :: "server_file_row list \<Rightarrow> string \<Rightarrow> string \<Rightarrow> bool" where
  "server_own rows agent_id p =
     (\<exists>f \<in> set rows. sfile_path f = p \<and> sfile_locked f \<and> sfile_locked_by f = Some agent_id)"

definition server_foreign :: "server_file_row list \<Rightarrow> string \<Rightarrow> string \<Rightarrow> bool" where
  "server_foreign rows agent_id p =
     (\<exists>f \<in> set rows. sfile_path f = p \<and> sfile_locked f \<and> sfile_locked_by f \<noteq> Some agent_id)"

definition server_release :: "string list \<Rightarrow> string \<Rightarrow> server_file_row \<Rightarrow> server_file_row" where
  "server_release ps agent_id f =
     (if sfile_path f \<in> set ps \<and> sfile_locked f \<and> sfile_locked_by f = Some agent_id
      then f\<lparr>sfile_locked := False, sfile_locked_by := None\<rparr> else f)"

section \<open>Properties of the lock operations\<close>

lemma insert_locks_apply:
  "insert_locks files agent_id locks p = (if p \<in> set files then Some agent_id else locks p)"
  by (induction files arbitrary: locks) auto

lemma unlock_loop_locks:
  "fst (unlock_loop files agent_id locks unlocked rejected) p =
     (if p \<in> set files \<and> locks p = Some agent_id then None else locks p)"
  by (induction files arbitrary: locks unlocked rejected) (auto split: option.splits)

lemma unlock_loop_unlocked:
  "set (fst (snd (unlock_loop files agent_id locks unlocked rejected))) =
     set unlocked \<union> {p \<in> set files. locks p = Some agent_id}"
  by (induction files arbitrary: locks unlocked rejected) (auto split: option.splits if_splits)

lemma unlock_loop_rejected:
  "snd (snd (unlock_loop files agent_id locks unlocked rejected)) =
     rejected @ filter (locked_by_other locks agent_id) files"
proof (induction files arbitrary: locks unlocked rejected)
  case Nil
  show ?case by simp
next
  case (Cons f files)
  have same: "locked_by_other (\<lambda>a. if a = f then None else locks a) agent_id =
      locked_by_other locks agent_id" if "locks f = Some agent_id"
    using that by (auto simp: locked_by_other_def fun_eq_iff)
  show ?case
  proof (cases "locks f")
    case None
    then show ?thesis by (simp add: Cons.IH locked_by_other_def)
  next
    case (Some b)
    show ?thesis
    proof (cases "b = agent_id")
      case True
      with Some have held: "locks f = Some agent_id" by simp
      have "\<not> locked_by_other locks agent_id f"
        using held by (simp add: locked_by_other_def)
      then show ?thesis
        using held by (simp add: Cons.IH same [OF held])
    next
      case False
      with Some have "locked_by_other locks agent_id f"
        by (simp add: locked_by_other_def)
      then show ?thesis
        using Some False by (simp add: Cons.IH)
    qed
  qed
qed

lemma unlock_loop_distinct:
  "distinct unlocked \<Longrightarrow> \<forall>p \<in> set unlocked. locks p \<noteq> Some agent_id \<Longrightarrow>
   distinct (fst (snd (unlock_loop files agent_id locks unlocked rejected)))"
proof (induction files arbitrary: locks unlocked rejected)
  case Nil
  then show ?case by simp
next
  case (Cons f files)
  show ?case
  proof (cases "locks f = Some agent_id")
    case True
    have "distinct (unlocked @ [f])" using Cons.prems True by auto
    moreover have "\<forall>p \<in> set (unlocked @ [f]). (locks(f := None)) p \<noteq> Some agent_id"
      using Cons.prems by auto
    ultimately show ?thesis using True Cons.IH by simp
  next
    case False
    then show ?thesis using Cons by (auto split: option.splits)
  qed
qed

section \<open>Lock acquisition\<close>

text \<open>
  C4 (as amended). \<^verbatim>\<open>lock_files\<close> of \<^verbatim>\<open>main.py\<close>, \<^verbatim>\<open>http_server.py\<close> and
  \<^verbatim>\<open>mcp_server_fixed.py\<close> is all-or-nothing. When a requested path is locked by another
  agent, the reply is the conflict error listing those paths and the database is
  unchanged. Otherwise the reply is success, every requested path is locked by the
  caller, every other path keeps its lock state and no other table changes. When the
  caller already holds every requested path the database is unchanged.
\<close>

theorem lock_files_all_or_nothing:
  "(filter (locked_by_other (file_locks s) agent_id) files \<noteq> [] \<longrightarrow>
      lock_files files agent_id s =
        (Inl (LockedByAnotherAgent (filter (locked_by_other (file_locks s) agent_id) files)), s))
   \<and> (filter (locked_by_other (file_locks s) agent_id) files = [] \<longrightarrow>
      fst (lock_files files agent_id s) = Inr files
      \<and> (\<forall>p. file_locks (snd (lock_files files agent_id s)) p =
               (if p \<in> set files then Some agent_id else file_locks s p))
      \<and> snd (lock_files files agent_id s) =
          s\<lparr>file_locks := file_locks (snd (lock_files files agent_id s))\<rparr>)
   \<and> ((\<forall>p \<in> set files. file_locks s p = Some agent_id) \<longrightarrow>
      lock_files files agent_id s = (Inr files, s))"
proof (intro conjI impI)
  assume "filter (locked_by_other (file_locks s) agent_id) files \<noteq> []"
  then show "lock_files files agent_id s =
      (Inl (LockedByAnotherAgent (filter (locked_by_other (file_locks s) agent_id) files)), s)"
    by (simp add: lock_files_def)
next
  assume free: "filter (locked_by_other (file_locks s) agent_id) files = []"
  then show "fst (lock_files files agent_id s) = Inr files"
    by (simp add: lock_files_def)
  from free show "\<forall>p. file_locks (snd (lock_files files agent_id s)) p =
      (if p \<in> set files then Some agent_id else file_locks s p)"
    by (simp add: lock_files_def insert_locks_apply)
  from free show "snd (lock_files files agent_id s) =
      s\<lparr>file_locks := file_locks (snd (lock_files files agent_id s))\<rparr>"
    by (simp add: lock_files_def)
next
  assume held: "\<forall>p \<in> set files. file_locks s p = Some agent_id"
  then have free: "filter (locked_by_other (file_locks s) agent_id) files = []"
    by (auto simp: filter_empty_conv locked_by_other_def)
  have "insert_locks files agent_id (file_locks s) = file_locks s"
    using held by (auto simp: fun_eq_iff insert_locks_apply)
  then show "lock_files files agent_id s = (Inr files, s)"
    using free by (simp add: lock_files_def)
qed

theorem lock_files_all_or_nothing_witness:
  "lock_files [''y'', ''z''] ''agent2'' locks_demo = (Inl (LockedByAnotherAgent [''y'']), locks_demo)
   \<and> file_locks (snd (lock_files [''y'', ''z''] ''agent1'' locks_demo)) ''z'' = Some ''agent1''
   \<and> lock_files [''x'', ''y''] ''agent1'' locks_demo = (Inr [''x'', ''y''], locks_demo)"
  using lock_files_all_or_nothing [of locks_demo "''agent2''" "[''y'', ''z'']"]
    lock_files_all_or_nothing [of locks_demo "''agent1''" "[''y'', ''z'']"]
    lock_files_all_or_nothing [of locks_demo "''agent1''" "[''x'', ''y'']"]
  by (simp add: locks_demo_def lock_files_def empty_db_def locked_by_other_def)


text \<open>
  C4 as stated does not hold for \<^verbatim>\<open>_lock_files\<close> of \<^verbatim>\<open>server.py\<close>: with \<^verbatim>\<open>b\<close> held by
  \<^verbatim>\<open>agent2\<close>, the request of \<^verbatim>\<open>agent1\<close> for \<^verbatim>\<open>a\<close> and \<^verbatim>\<open>b\<close> reports \<^verbatim>\<open>b\<close> as failed
  and leaves \<^verbatim>\<open>a\<close> locked by \<^verbatim>\<open>agent1\<close>.
\<close>

theorem server_lock_files_partial_counterexample:
  "server_holder server_locks_demo ''b'' = Some ''agent2''
   \<and> server_holder server_locks_demo ''a'' = None
   \<and> fst (server_lock_files [''a'', ''b''] ''agent1'' server_locks_demo) =
       \<lparr>reply_locked = [''a''], reply_failed = [(''b'', Some ''agent2'')]\<rparr>
   \<and> server_holder (snd (server_lock_files [''a'', ''b''] ''agent1'' server_locks_demo)) ''a'' =
       Some ''agent1''"
  by code_simp

section \<open>Lock release\<close>

text \<open>
  C7. \<^verbatim>\<open>unlock_files\<close> releases exactly the requested paths that the caller holds:
  after the call such a path has no lock row and every other path has the row it had.
  \<^verbatim>\<open>unlocked_files\<close> lists the released paths, each once. The requested paths held by
  another agent are listed in \<^verbatim>\<open>not_owned\<close> (the reply's error entry) and keep their
  row. No other table changes. A request for paths that have no lock row changes nothing
  and reports nothing.
\<close>

theorem unlock_files_releases_own:
  "(\<forall>p. file_locks (snd (unlock_files files agent_id s)) p =
          (if p \<in> set files \<and> file_locks s p = Some agent_id then None else file_locks s p))
   \<and> set (unlocked_files (fst (unlock_files files agent_id s))) =
       {p \<in> set files. file_locks s p = Some agent_id}
   \<and> distinct (unlocked_files (fst (unlock_files files agent_id s)))
   \<and> not_owned (fst (unlock_files files agent_id s)) =
       filter (locked_by_other (file_locks s) agent_id) files
   \<and> snd (unlock_files files agent_id s) =
       s\<lparr>file_locks := file_locks (snd (unlock_files files agent_id s))\<rparr>
   \<and> ((\<forall>p \<in> set files. file_locks s p = None) \<longrightarrow>
       unlock_files files agent_id s = (\<lparr>unlocked_files = [], not_owned = []\<rparr>, s))"
proof -
  obtain locks unlocked rejected where
    loop: "unlock_loop files agent_id (file_locks s) [] [] = (locks, unlocked, rejected)"
    by (cases "unlock_loop files agent_id (file_locks s) [] []") auto
  have res: "unlock_files files agent_id s =
      (\<lparr>unlocked_files = unlocked, not_owned = rejected\<rparr>, s\<lparr>file_locks := locks\<rparr>)"
    by (simp add: unlock_files_def loop)
  have locks: "locks p = (if p \<in> set files \<and> file_locks s p = Some agent_id then None
      else file_locks s p)" for p
    using unlock_loop_locks [of files agent_id "file_locks s" "[]" "[]" p] by (simp add: loop)
  have unlocked: "set unlocked = {p \<in> set files. file_locks s p = Some agent_id}"
    using unlock_loop_unlocked [of files agent_id "file_locks s" "[]" "[]"] by (simp add: loop)
  have dist: "distinct unlocked"
    using unlock_loop_distinct [of "[]" "file_locks s" agent_id files "[]"] by (simp add: loop)
  have rejected: "rejected = filter (locked_by_other (file_locks s) agent_id) files"
    using unlock_loop_rejected [of files agent_id "file_locks s" "[]" "[]"] by (simp add: loop)
  have noop: "unlock_files files agent_id s = (\<lparr>unlocked_files = [], not_owned = []\<rparr>, s)"
    if free: "\<forall>p \<in> set files. file_locks s p = None"
  proof -
    have "locks = file_locks s" using free by (auto simp: fun_eq_iff locks)
    moreover have "set unlocked = {}" using unlocked free by auto
    then have "unlocked = []" by simp
    moreover have "rejected = []"
      using rejected free by (auto simp: filter_empty_conv locked_by_other_def)
    ultimately show ?thesis by (simp add: res)
  qed
  show ?thesis
    using locks unlocked dist rejected noop by (simp add: res)
qed

theorem unlock_files_releases_own_witness:
  "file_locks (snd (unlock_files [''x'', ''q''] ''agent1'' locks_demo)) ''x'' = None
   \<and> file_locks (snd (unlock_files [''x'', ''q''] ''agent2'' locks_demo)) ''x'' = Some ''agent1''
   \<and> not_owned (fst (unlock_files [''x'', ''q''] ''agent2'' locks_demo)) = [''x'']
   \<and> unlock_files [''q''] ''agent2'' locks_demo = (\<lparr>unlocked_files = [], not_owned = []\<rparr>, locks_demo)"
  using unlock_files_releases_own [of "[''x'', ''q'']" "''agent1''" locks_demo]
    unlock_files_releases_own [of "[''x'', ''q'']" "''agent2''" locks_demo]
    unlock_files_releases_own [of "[''q'']" "''agent2''" locks_demo]
  by (simp add: locks_demo_def lock_files_def empty_db_def locked_by_other_def)

section \<open>Properties of the selection\<close>

lemma first_in_order_mem:
  assumes "first_in_order rows = Some t"
  shows "\<exists>task. (task, t) \<in> set rows"
proof -
  let ?sorted = "sort_key (\<lambda>(task, t). (task_order_index task, todo_order_index t)) rows"
  from assms obtain task rest where "?sorted = (task, t) # rest"
    by (auto simp: first_in_order_def split: list.splits)
  then have "(task, t) \<in> set ?sorted" by simp
  then show ?thesis by auto
qed

lemma first_in_order_none: "first_in_order rows = None \<longleftrightarrow> rows = []"
proof -
  let ?sorted = "sort_key (\<lambda>(task, t). (task_order_index task, todo_order_index t)) rows"
  have "length ?sorted = length rows" by simp
  then have "?sorted = [] \<longleftrightarrow> rows = []" by (metis length_0_conv)
  then show ?thesis by (auto simp: first_in_order_def split: list.splits)
qed

lemma has_foreign_lock_iff:
  "has_foreign_lock s agent_id t \<longleftrightarrow>
     (\<exists>p \<in> set (files_of s (todo_id t)). locked_by_other (file_locks s) agent_id p)"
  by (force simp: has_foreign_lock_def files_of_def)

lemma available_todos_iff:
  "(task, t) \<in> set (available_todos s pid agent_id) \<longleftrightarrow>
     t \<in> set (todo_items s) \<and> task \<in> set (tasks s) \<and> todo_task_id t = task_id task
     \<and> task_project_id task = pid \<and> todo_status t = ''pending'' \<and> todo_assigned_agent t = None
     \<and> \<not> has_incomplete_dependency s t \<and> \<not> has_foreign_lock s agent_id t"
  by (auto simp: available_todos_def)

lemma fixed_available_todos_iff:
  "(task, t) \<in> set (fixed_available_todos s pid) \<longleftrightarrow>
     t \<in> set (todo_items s) \<and> task \<in> set (tasks s) \<and> todo_task_id t = task_id task
     \<and> task_project_id task = pid \<and> todo_status t = ''pending'' \<and> todo_assigned_agent t = None
     \<and> \<not> has_incomplete_dependency s t"
  by (auto simp: fixed_available_todos_def)

section \<open>Locks in the eligibility check\<close>

text \<open>
  C5 (as amended). In the selection of \<^verbatim>\<open>main.py\<close> and \<^verbatim>\<open>http_server.py\<close> the lock
  condition fails exactly when a file of the item is locked by an agent other than the
  requester. An item whose files are each unlocked or locked by the requester passes it,
  and such a row is selected exactly when it also belongs to the project, is pending and
  unassigned and has no incomplete dependency.
\<close>

theorem self_lock_does_not_block:
  "(has_foreign_lock s agent_id t \<longleftrightarrow>
      (\<exists>p \<in> set (files_of s (todo_id t)). \<exists>b. file_locks s p = Some b \<and> b \<noteq> agent_id))
   \<and> ((\<forall>p \<in> set (files_of s (todo_id t)). file_locks s p = None \<or> file_locks s p = Some agent_id)
        \<longrightarrow> \<not> has_foreign_lock s agent_id t)
   \<and> ((task, t) \<in> set (available_todos s pid agent_id) \<longleftrightarrow>
        t \<in> set (todo_items s) \<and> task \<in> set (tasks s) \<and> todo_task_id t = task_id task
        \<and> task_project_id task = pid \<and> todo_status t = ''pending'' \<and> todo_assigned_agent t = None
        \<and> \<not> has_incomplete_dependency s t
        \<and> (\<forall>p \<in> set (files_of s (todo_id t)). file_locks s p = None \<or> file_locks s p = Some agent_id))"
proof -
  have a: "has_foreign_lock s agent_id t \<longleftrightarrow>
      (\<exists>p \<in> set (files_of s (todo_id t)). \<exists>b. file_locks s p = Some b \<and> b \<noteq> agent_id)"
    by (auto simp: has_foreign_lock_iff locked_by_other_def split: option.splits)
  have free: "(file_locks s p = None \<or> file_locks s p = Some agent_id) \<longleftrightarrow>
      \<not> (\<exists>b. file_locks s p = Some b \<and> b \<noteq> agent_id)" for p
    by (cases "file_locks s p") auto
  have b: "\<not> has_foreign_lock s agent_id t \<longleftrightarrow>
      (\<forall>p \<in> set (files_of s (todo_id t)). file_locks s p = None \<or> file_locks s p = Some agent_id)"
    unfolding a free by blast
  have c: "(task, t) \<in> set (available_todos s pid agent_id) \<longleftrightarrow>
        t \<in> set (todo_items s) \<and> task \<in> set (tasks s) \<and> todo_task_id t = task_id task
        \<and> task_project_id task = pid \<and> todo_status t = ''pending'' \<and> todo_assigned_agent t = None
        \<and> \<not> has_incomplete_dependency s t
        \<and> (\<forall>p \<in> set (files_of s (todo_id t)). file_locks s p = None \<or> file_locks s p = Some agent_id)"
    unfolding available_todos_iff b ..
  from b have b': "(\<forall>p \<in> set (files_of s (todo_id t)). file_locks s p = None \<or> file_locks s p = Some agent_id)
        \<longrightarrow> \<not> has_foreign_lock s agent_id t" by blast
  from a b' c show ?thesis by (intro conjI)
qed

theorem self_lock_does_not_block_witness:
  "list_all (\<lambda>p. file_locks held_demo p = None \<or> file_locks held_demo p = Some ''agent1'')
     (files_of held_demo (todo_id item_A))
   \<and> file_locks held_demo ''f1.txt'' = Some ''agent1''
   \<and> \<not> has_foreign_lock held_demo ''agent1'' item_A
   \<and> has_foreign_lock held_demo ''agent2'' item_A"
proof -
  have free: "\<forall>p \<in> set (files_of held_demo (todo_id item_A)).
      file_locks held_demo p = None \<or> file_locks held_demo p = Some ''agent1''"
    by code_simp
  have held: "file_locks held_demo ''f1.txt'' = Some ''agent1''"
    by code_simp
  have "''f1.txt'' \<in> set (files_of held_demo (todo_id item_A))"
    by code_simp
  with held have other: "\<exists>p \<in> set (files_of held_demo (todo_id item_A)).
      \<exists>b. file_locks held_demo p = Some b \<and> b \<noteq> ''agent2''"
    by (intro bexI [of _ "''f1.txt''"] exI [of _ "''agent1''"]) simp_all
  note thm1 = self_lock_does_not_block [of held_demo "''agent1''" item_A]
  note thm2 = self_lock_does_not_block [of held_demo "''agent2''" item_A]
  from thm1 free have "\<not> has_foreign_lock held_demo ''agent1'' item_A" by blast
  moreover from thm2 other have "has_foreign_lock held_demo ''agent2'' item_A" by blast
  ultimately show ?thesis using free held by (simp add: list_all_iff)
qed


text \<open>
  C5 as stated does not hold for \<^verbatim>\<open>_get_next_todo_item\<close> of \<^verbatim>\<open>server.py\<close>, which skips
  an item when any of its files is locked: after \<^verbatim>\<open>agent1\<close> locks \<^verbatim>\<open>f1.txt\<close>, the only
  file of the only item, \<^verbatim>\<open>agent1\<close> itself is told that nothing is available, although
  the item was offered before the lock.
\<close>

theorem server_self_lock_blocks_counterexample:
  "fst (server_get_next_todo_item ''P'' ''agent1'' server_plan_demo) =
     Inr (Some (server_item_A, [''f1.txt'']))
   \<and> server_holder (snd (server_lock_files [''f1.txt''] ''agent1'' server_plan_demo)) ''f1.txt'' =
       Some ''agent1''
   \<and> fst (server_get_next_todo_item ''P'' ''agent1''
            (snd (server_lock_files [''f1.txt''] ''agent1'' server_plan_demo))) = Inr None"
  by code_simp

section \<open>Properties of the assignment\<close>

lemma update_todo_mem:
  "t' \<in> set (update_todo tid st agent rows) \<longleftrightarrow>
     (\<exists>t \<in> set rows. t' = (if todo_id t = tid
        then t\<lparr>todo_status := st, todo_assigned_agent := agent\<rparr> else t))"
  unfolding update_todo_def set_map by blast

lemma update_todo_hit:
  assumes "t' \<in> set (update_todo tid st agent rows)" and "todo_id t' = tid"
  shows "todo_status t' = st \<and> todo_assigned_agent t' = agent"
proof -
  from assms(1) obtain t where "t \<in> set rows"
    and t': "t' = (if todo_id t = tid
        then t\<lparr>todo_status := st, todo_assigned_agent := agent\<rparr> else t)"
    unfolding update_todo_mem by blast
  show ?thesis
  proof (cases "todo_id t = tid")
    case True
    with t' show ?thesis by simp
  next
    case False
    with t' assms(2) show ?thesis by simp
  qed
qed

lemma main_get_next_read_only: "snd (main_get_next_todo_item name agent_id s) = s"
  by (simp add: main_get_next_todo_item_def split: option.splits)

lemma picked_claimable:
  assumes "first_in_order (available_todos s pid agent_id) = Some row"
  shows "row \<in> set (todo_items s) \<and> todo_status row = ''pending''
    \<and> todo_assigned_agent row = None"
proof -
  from first_in_order_mem [OF assms] obtain task
    where "(task, row) \<in> set (available_todos s pid agent_id)" ..
  then show ?thesis unfolding available_todos_iff by blast
qed

lemma fixed_picked_claimable:
  assumes "first_in_order (fixed_available_todos s pid) = Some row"
  shows "row \<in> set (todo_items s) \<and> todo_status row = ''pending''
    \<and> todo_assigned_agent row = None"
proof -
  from first_in_order_mem [OF assms] obtain task
    where "(task, row) \<in> set (fixed_available_todos s pid)" ..
  then show ?thesis unfolding fixed_available_todos_iff by blast
qed


lemma claimable_after_update:
  assumes "claimable (s\<lparr>todo_items := update_todo tid st agent (todo_items s)\<rparr>) tid"
  shows "st = ''pending''"
proof -
  from assms obtain t where "t \<in> set (update_todo tid st agent (todo_items s))"
    and "todo_id t = tid" and "todo_status t = ''pending''"
    unfolding claimable_def by auto
  with update_todo_hit [of t tid st agent "todo_items s"] show ?thesis by simp
qed

lemma main_get_next_cases:
  assumes "fst (main_get_next_todo_item name agent_id s) = Inr (Some (item, files))"
  shows "\<exists>p. project_by_name s name = Some p
    \<and> first_in_order (available_todos s (project_id p) agent_id) = Some item
    \<and> files = files_of s (todo_id item)"
  using assms by (auto simp: main_get_next_todo_item_def split: option.splits)

lemma main_get_next_claimable:
  assumes "fst (main_get_next_todo_item name agent_id s) = Inr (Some (item, files))"
  shows "claimable s (todo_id item)"
proof -
  from main_get_next_cases [OF assms] obtain p :: project_row where
    "first_in_order (available_todos s (project_id p) agent_id) = Some item" by blast
  from picked_claimable [OF this] show ?thesis unfolding claimable_def by blast
qed

lemma http_get_next_cases:
  assumes "http_get_next_todo_item name agent_id s = (Inr (Some (item, files)), s')"
  shows "\<exists>p row. project_by_name s name = Some p
    \<and> first_in_order (available_todos s (project_id p) agent_id) = Some row
    \<and> item = row\<lparr>todo_status := ''in_progress'', todo_assigned_agent := Some agent_id\<rparr>
    \<and> files = files_of s (todo_id row)
    \<and> s' = s\<lparr>todo_items :=
           update_todo (todo_id row) ''in_progress'' (Some agent_id) (todo_items s)\<rparr>"
  using assms by (auto simp: http_get_next_todo_item_def split: option.splits)

lemma fixed_get_next_cases:
  assumes "fixed_get_next_todo_item name agent_id s = (Inr (Some (item, files)), s')"
  shows "\<exists>p row. project_by_name s name = Some p
    \<and> first_in_order (fixed_available_todos s (project_id p)) = Some row
    \<and> item = row\<lparr>todo_status := ''in_progress'', todo_assigned_agent := Some agent_id\<rparr>
    \<and> files = files_of s (todo_id row)
    \<and> s' = s\<lparr>todo_items :=
           update_todo (todo_id row) ''in_progress'' (Some agent_id) (todo_items s)\<rparr>"
  using assms by (auto simp: fixed_get_next_todo_item_def split: option.splits)

lemma http_get_next_claimable:
  assumes "fst (http_get_next_todo_item name agent_id s) = Inr (Some (item, files))"
  shows "claimable s (todo_id item)"
proof -
  from assms have "http_get_next_todo_item name agent_id s =
      (Inr (Some (item, files)), snd (http_get_next_todo_item name agent_id s))"
    by (simp add: prod_eq_iff)
  from http_get_next_cases [OF this] obtain p :: project_row and row :: todo_row where
    pick: "first_in_order (available_todos s (project_id p) agent_id) = Some row"
    and item: "item = row\<lparr>todo_status := ''in_progress'', todo_assigned_agent := Some agent_id\<rparr>"
    by blast
  from item have "todo_id item = todo_id row" by simp
  with picked_claimable [OF pick] show ?thesis
    unfolding claimable_def by auto
qed

lemma fixed_get_next_claimable:
  assumes "fst (fixed_get_next_todo_item name agent_id s) = Inr (Some (item, files))"
  shows "claimable s (todo_id item)"
proof -
  from assms have "fixed_get_next_todo_item name agent_id s =
      (Inr (Some (item, files)), snd (fixed_get_next_todo_item name agent_id s))"
    by (simp add: prod_eq_iff)
  from fixed_get_next_cases [OF this] obtain p :: project_row and row :: todo_row where
    pick: "first_in_order (fixed_available_todos s (project_id p)) = Some row"
    and item: "item = row\<lparr>todo_status := ''in_progress'', todo_assigned_agent := Some agent_id\<rparr>"
    by blast
  from item have "todo_id item = todo_id row" by simp
  with fixed_picked_claimable [OF pick] show ?thesis
    unfolding claimable_def by auto
qed

text \<open>What an assignment by \<^verbatim>\<open>UPDATE ... WHERE id = ?\<close> of a picked row establishes.\<close>

lemma assignment_effect:
  assumes row: "row \<in> set (todo_items s)" "todo_status row = ''pending''"
      "todo_assigned_agent row = None"
    and item: "item = row\<lparr>todo_status := ''in_progress'', todo_assigned_agent := Some agent_id\<rparr>"
    and s': "s' = s\<lparr>todo_items :=
           update_todo (todo_id row) ''in_progress'' (Some agent_id) (todo_items s)\<rparr>"
  shows "(\<exists>row \<in> set (todo_items s). todo_status row = ''pending'' \<and> todo_assigned_agent row = None
            \<and> item = row\<lparr>todo_status := ''in_progress'', todo_assigned_agent := Some agent_id\<rparr>)
     \<and> item \<in> set (todo_items s')
     \<and> (\<forall>t \<in> set (todo_items s'). todo_id t = todo_id item \<longrightarrow>
          todo_status t = ''in_progress'' \<and> todo_assigned_agent t = Some agent_id)
     \<and> \<not> claimable s' (todo_id item)"
proof (intro conjI)
  show "\<exists>row \<in> set (todo_items s). todo_status row = ''pending'' \<and> todo_assigned_agent row = None
      \<and> item = row\<lparr>todo_status := ''in_progress'', todo_assigned_agent := Some agent_id\<rparr>"
    using row item by blast
  have id: "todo_id item = todo_id row" using item by simp
  show "item \<in> set (todo_items s')"
    unfolding s' using row(1) item by (simp add: update_todo_mem) (rule bexI [of _ row], simp_all)
  show "\<forall>t \<in> set (todo_items s'). todo_id t = todo_id item \<longrightarrow>
      todo_status t = ''in_progress'' \<and> todo_assigned_agent t = Some agent_id"
    unfolding s' id using update_todo_hit [of _ "todo_id row" "''in_progress''" "Some agent_id"]
    by simp
  show "\<not> claimable s' (todo_id item)"
    unfolding s' id
    using claimable_after_update [where s = s and tid = "todo_id row" and st = "''in_progress''"]
    by auto
qed


section \<open>Properties of the status update\<close>

lemma delete_own_locks_apply:
  "delete_own_locks files agent_id locks p =
     (if p \<in> set files \<and> locks p = Some agent_id then None else locks p)"
  by (induction files arbitrary: locks) auto

lemma valid_status_cases:
  "status \<in> set valid_statuses \<longleftrightarrow>
     status = ''pending'' \<or> status = ''in_progress'' \<or> status = ''completed''
     \<or> status = ''cancelled''"
  by (auto simp: valid_statuses_def)

lemma main_update_invalid:
  "status \<notin> set valid_statuses \<Longrightarrow>
     main_update_todo_status tid status agent_id s = (Inl InvalidStatus, s)"
  by (simp add: main_update_todo_status_def)

lemma main_update_missing:
  "status \<in> set valid_statuses \<Longrightarrow> main_find_todo s tid = None \<Longrightarrow>
     main_update_todo_status tid status agent_id s = (Inl (TodoNotFound tid), s)"
  by (simp add: main_update_todo_status_def)

lemma main_update_conflict:
  "status \<in> set valid_statuses \<Longrightarrow> main_find_todo s tid = Some row \<Longrightarrow>
     main_other_owner row agent_id status = Some a \<Longrightarrow>
     main_update_todo_status tid status agent_id s = (Inl (AssignedToDifferentAgent a), s)"
  by (simp add: main_update_todo_status_def)

lemma main_update_ok:
  assumes "status \<in> set valid_statuses" and "main_find_todo s tid = Some row"
    and "main_other_owner row agent_id status = None"
  shows "main_update_todo_status tid status agent_id s =
     (Inr \<lparr>reply_id = tid, reply_status = status,
           reply_assigned_agent = (if status = ''in_progress'' then Some agent_id else None)\<rparr>,
      s\<lparr>todo_items := update_todo tid status
            (if status = ''in_progress'' then Some agent_id else None) (todo_items s),
        file_locks :=
          (if status = ''in_progress'' then insert_locks (files_of s tid) agent_id (file_locks s)
           else if status = ''pending'' then file_locks s
           else delete_own_locks (files_of s tid) agent_id (file_locks s))\<rparr>)"
  using assms unfolding valid_status_cases
  by (elim disjE) (simp_all add: main_update_todo_status_def valid_statuses_def Let_def)

lemma http_update_conflict:
  "status \<in> set valid_statuses \<Longrightarrow> find_todo s tid = Some row \<Longrightarrow>
     http_other_owner row agent_id = Some a \<Longrightarrow>
     http_update_todo_status tid status agent_id s = (Inl (AssignedToDifferentAgent a), s)
     \<and> fixed_update_todo_status tid status agent_id s = (Inl (AssignedToDifferentAgent a), s)"
  by (simp add: http_update_todo_status_def fixed_update_todo_status_def)

lemma http_update_ok:
  assumes "status \<in> set valid_statuses" and "find_todo s tid = Some row"
    and "http_other_owner row agent_id = None"
  shows "http_update_todo_status tid status agent_id s =
     (Inr \<lparr>reply_id = tid, reply_status = status,
           reply_assigned_agent = (if status = ''in_progress'' then Some agent_id else None)\<rparr>,
      s\<lparr>todo_items := update_todo tid status
            (if status = ''in_progress'' then Some agent_id else None) (todo_items s)\<rparr>)"
  using assms unfolding valid_status_cases
  by (elim disjE) (simp_all add: http_update_todo_status_def valid_statuses_def Let_def)

lemma fixed_update_eq_http:
  "fixed_update_todo_status tid status agent_id s = http_update_todo_status tid status agent_id s"
  by (simp add: http_update_todo_status_def fixed_update_todo_status_def Let_def
      split: option.splits)


lemma main_update_cases:
  "(\<exists>e. main_update_todo_status tid status agent_id s = (Inl e, s))
   \<or> (status \<in> set valid_statuses
       \<and> (\<exists>row. main_find_todo s tid = Some row \<and> main_other_owner row agent_id status = None)
       \<and> main_update_todo_status tid status agent_id s =
     (Inr \<lparr>reply_id = tid, reply_status = status,
           reply_assigned_agent = (if status = ''in_progress'' then Some agent_id else None)\<rparr>,
      s\<lparr>todo_items := update_todo tid status
            (if status = ''in_progress'' then Some agent_id else None) (todo_items s),
        file_locks :=
          (if status = ''in_progress'' then insert_locks (files_of s tid) agent_id (file_locks s)
           else if status = ''pending'' then file_locks s
           else delete_own_locks (files_of s tid) agent_id (file_locks s))\<rparr>))"
proof (cases "status \<in> set valid_statuses")
  case False
  then show ?thesis by (simp add: main_update_invalid)
next
  case valid: True
  show ?thesis
  proof (cases "main_find_todo s tid")
    case None
    with valid show ?thesis by (simp add: main_update_missing)
  next
    case (Some row)
    show ?thesis
    proof (cases "main_other_owner row agent_id status")
      case None
      from main_update_ok [OF valid Some None] valid Some None show ?thesis by blast
    next
      case (Some a)
      from main_update_conflict [OF valid \<open>main_find_todo s tid = Some row\<close> Some]
      show ?thesis by blast
    qed
  qed
qed

lemma main_other_owner_pending: "main_other_owner row agent_id ''pending'' = None"
  by (simp add: main_other_owner_def split: option.splits)

lemma main_other_owner_foreign:
  "todo_assigned_agent row = Some a \<Longrightarrow> a \<noteq> [] \<Longrightarrow> a \<noteq> agent_id \<Longrightarrow> status \<noteq> ''pending'' \<Longrightarrow>
     main_other_owner row agent_id status = Some a"
  by (simp add: main_other_owner_def)

lemma http_other_owner_foreign:
  "todo_assigned_agent row = Some a \<Longrightarrow> a \<noteq> [] \<Longrightarrow> a \<noteq> agent_id \<Longrightarrow>
     http_other_owner row agent_id = Some a"
  by (simp add: http_other_owner_def)

lemma other_owner_unassigned:
  "todo_assigned_agent row = None \<Longrightarrow>
     main_other_owner row agent_id status = None \<and> http_other_owner row agent_id = None"
  by (simp add: main_other_owner_def http_other_owner_def)

lemma pending_valid: "''pending'' \<in> set valid_statuses"
  by (simp add: valid_statuses_def)

section \<open>Claiming the next item\<close>









text \<open>
  A call of \<^verbatim>\<open>http_server.py\<close> or \<^verbatim>\<open>mcp_server_fixed.py\<close> is its \<^verbatim>\<open>SELECT\<close> followed by the
  assignment of the selected row.
\<close>

lemma get_next_steps:
  "http_get_next_todo_item name agent_id s =
     assign_selected (http_select_next name agent_id s) agent_id s"
  "fixed_get_next_todo_item name agent_id s =
     assign_selected (fixed_select_next name s) agent_id s"
  by (simp_all add: http_get_next_todo_item_def fixed_get_next_todo_item_def
      http_select_next_def fixed_select_next_def assign_selected_def split: option.splits)

text \<open>
  Calls that run one after the other do not hand out an item twice: once a call of
  \<^verbatim>\<open>http_server.py\<close> or \<^verbatim>\<open>mcp_server_fixed.py\<close> has returned an item, no row with its id
  is pending and unassigned, and a \<^verbatim>\<open>get_next_todo_item\<close> call of any of the three
  servers that starts on the resulting database returns another item or none.
\<close>

lemma later_call_returns_another_item:
  assumes "http_get_next_todo_item name agent_id s = (Inr (Some (item, files)), s')
           \<or> fixed_get_next_todo_item name agent_id s = (Inr (Some (item, files)), s')"
    and "fst (http_get_next_todo_item name2 agent2 s') = Inr (Some (item2, files2))
         \<or> fst (fixed_get_next_todo_item name2 agent2 s') = Inr (Some (item2, files2))
         \<or> fst (main_get_next_todo_item name2 agent2 s') = Inr (Some (item2, files2))"
  shows "todo_id item2 \<noteq> todo_id item"
proof -
  have "\<not> claimable s' (todo_id item)"
    using assms(1)
  proof
    assume call: "http_get_next_todo_item name agent_id s = (Inr (Some (item, files)), s')"
    from http_get_next_cases [OF call] obtain p :: project_row and row :: todo_row where
      pick: "first_in_order (available_todos s (project_id p) agent_id) = Some row"
      and item: "item = row\<lparr>todo_status := ''in_progress'', todo_assigned_agent := Some agent_id\<rparr>"
      and s': "s' = s\<lparr>todo_items :=
           update_todo (todo_id row) ''in_progress'' (Some agent_id) (todo_items s)\<rparr>"
      by blast
    from picked_claimable [OF pick] have row: "row \<in> set (todo_items s)"
      "todo_status row = ''pending''" "todo_assigned_agent row = None" by simp_all
    from assignment_effect [OF row item s'] show ?thesis by simp
  next
    assume call: "fixed_get_next_todo_item name agent_id s = (Inr (Some (item, files)), s')"
    from fixed_get_next_cases [OF call] obtain p :: project_row and row :: todo_row where
      pick: "first_in_order (fixed_available_todos s (project_id p)) = Some row"
      and item: "item = row\<lparr>todo_status := ''in_progress'', todo_assigned_agent := Some agent_id\<rparr>"
      and s': "s' = s\<lparr>todo_items :=
           update_todo (todo_id row) ''in_progress'' (Some agent_id) (todo_items s)\<rparr>"
      by blast
    from fixed_picked_claimable [OF pick] have row: "row \<in> set (todo_items s)"
      "todo_status row = ''pending''" "todo_assigned_agent row = None" by simp_all
    from assignment_effect [OF row item s'] show ?thesis by simp
  qed
  moreover have "claimable s' (todo_id item2)"
    using assms(2) http_get_next_claimable fixed_get_next_claimable main_get_next_claimable
    by blast
  ultimately show ?thesis by auto
qed

text \<open>
  Two calls of \<^verbatim>\<open>http_server.py\<close> whose statements alternate: \<^verbatim>\<open>agent1\<close> and \<^verbatim>\<open>agent2\<close> both
  run their \<^verbatim>\<open>SELECT\<close> on the plan, where item \<^verbatim>\<open>A\<close> is pending, before either runs its
  \<^verbatim>\<open>UPDATE\<close>. Each \<^verbatim>\<open>UPDATE\<close> finds the row by its id, so both calls return item \<^verbatim>\<open>A\<close> as
  their own, and the row is left assigned to the agent whose \<^verbatim>\<open>UPDATE\<close> came last.
\<close>

lemma get_next_calls_interleaved:
  "http_select_next ''P'' ''agent1'' plan_demo = Inr (Some item_A)"
  "http_select_next ''P'' ''agent2'' plan_demo = Inr (Some item_A)"
  "fst (assign_selected (Inr (Some item_A)) ''agent1'' plan_demo) =
     Inr (Some (item_A\<lparr>todo_status := ''in_progress'', todo_assigned_agent := Some ''agent1''\<rparr>,
                [''f1.txt'']))"
  "fst (assign_selected (Inr (Some item_A)) ''agent2''
          (snd (assign_selected (Inr (Some item_A)) ''agent1'' plan_demo))) =
     Inr (Some (item_A\<lparr>todo_status := ''in_progress'', todo_assigned_agent := Some ''agent2''\<rparr>,
                [''f1.txt'']))"
  "todo_items (snd (assign_selected (Inr (Some item_A)) ''agent2''
          (snd (assign_selected (Inr (Some item_A)) ''agent1'' plan_demo)))) =
     [item_A\<lparr>todo_status := ''in_progress'', todo_assigned_agent := Some ''agent2''\<rparr>, item_B]"
  by code_simp+


section \<open>Ownership of a todo item\<close>

text \<open>
  C6 (as amended). In \<^verbatim>\<open>main.py\<close>, an \<^verbatim>\<open>update_todo_status\<close> call with a valid status
  other than \<^verbatim>\<open>pending\<close> on an item assigned to a different agent with a non-empty id
  returns the ownership error and leaves the database unchanged, and a call with
  \<^verbatim>\<open>pending\<close> on an existing item succeeds whoever makes it and leaves the item pending
  and unassigned. In \<^verbatim>\<open>http_server.py\<close> and \<^verbatim>\<open>mcp_server_fixed.py\<close> a call with any valid
  status on such an item returns the ownership error and leaves the database unchanged.
\<close>

theorem ownership_conflict:
  "(status \<in> set valid_statuses \<and> status \<noteq> ''pending'' \<and> main_find_todo s tid = Some row
      \<and> todo_assigned_agent row = Some a \<and> a \<noteq> [] \<and> a \<noteq> agent_id \<longrightarrow>
      main_update_todo_status tid status agent_id s = (Inl (AssignedToDifferentAgent a), s))
   \<and> (main_find_todo s tid = Some row \<longrightarrow>
      fst (main_update_todo_status tid ''pending'' agent_id s) =
        Inr \<lparr>reply_id = tid, reply_status = ''pending'', reply_assigned_agent = None\<rparr>
      \<and> (\<forall>t \<in> set (todo_items (snd (main_update_todo_status tid ''pending'' agent_id s))).
            todo_id t = tid \<longrightarrow> todo_status t = ''pending'' \<and> todo_assigned_agent t = None))
   \<and> (status \<in> set valid_statuses \<and> find_todo s tid = Some row
      \<and> todo_assigned_agent row = Some a \<and> a \<noteq> [] \<and> a \<noteq> agent_id \<longrightarrow>
      http_update_todo_status tid status agent_id s = (Inl (AssignedToDifferentAgent a), s)
      \<and> fixed_update_todo_status tid status agent_id s = (Inl (AssignedToDifferentAgent a), s))"
proof (intro conjI impI)
  assume "status \<in> set valid_statuses \<and> status \<noteq> ''pending'' \<and> main_find_todo s tid = Some row
      \<and> todo_assigned_agent row = Some a \<and> a \<noteq> [] \<and> a \<noteq> agent_id"
  then show "main_update_todo_status tid status agent_id s = (Inl (AssignedToDifferentAgent a), s)"
    using main_update_conflict [of status s tid row agent_id a]
      main_other_owner_foreign [of row a agent_id status] by blast
next
  assume found: "main_find_todo s tid = Some row"
  note ok = main_update_ok [OF pending_valid found main_other_owner_pending]
  show "fst (main_update_todo_status tid ''pending'' agent_id s) =
        Inr \<lparr>reply_id = tid, reply_status = ''pending'', reply_assigned_agent = None\<rparr>"
    by (simp add: ok)
  show "\<forall>t \<in> set (todo_items (snd (main_update_todo_status tid ''pending'' agent_id s))).
            todo_id t = tid \<longrightarrow> todo_status t = ''pending'' \<and> todo_assigned_agent t = None"
    using update_todo_hit [of _ tid "''pending''" None "todo_items s"] by (simp add: ok)
next
  assume h: "status \<in> set valid_statuses \<and> find_todo s tid = Some row
      \<and> todo_assigned_agent row = Some a \<and> a \<noteq> [] \<and> a \<noteq> agent_id"
  then have "http_other_owner row agent_id = Some a"
    using http_other_owner_foreign by blast
  with h http_update_conflict [of status s tid row agent_id a]
  show "http_update_todo_status tid status agent_id s = (Inl (AssignedToDifferentAgent a), s)"
    and "fixed_update_todo_status tid status agent_id s = (Inl (AssignedToDifferentAgent a), s)"
    by blast+
qed

theorem ownership_conflict_witness:
  "main_find_todo started_demo 1 =
     Some (item_A\<lparr>todo_status := ''in_progress'', todo_assigned_agent := Some ''agent1''\<rparr>)
   \<and> main_update_todo_status 1 ''completed'' ''agent2'' started_demo =
       (Inl (AssignedToDifferentAgent ''agent1''), started_demo)
   \<and> fst (main_update_todo_status 1 ''pending'' ''agent2'' started_demo) =
       Inr \<lparr>reply_id = 1, reply_status = ''pending'', reply_assigned_agent = None\<rparr>
   \<and> find_todo claimed_demo 1 =
     Some (item_A\<lparr>todo_status := ''in_progress'', todo_assigned_agent := Some ''agent1''\<rparr>)
   \<and> http_update_todo_status 1 ''completed'' ''agent2'' claimed_demo =
       (Inl (AssignedToDifferentAgent ''agent1''), claimed_demo)"
proof -
  let ?row = "item_A\<lparr>todo_status := ''in_progress'', todo_assigned_agent := Some ''agent1''\<rparr>"
  have found: "main_find_todo started_demo 1 = Some ?row" by code_simp
  have found': "find_todo claimed_demo 1 = Some ?row" by code_simp
  have owner: "todo_assigned_agent ?row = Some ''agent1''" by simp
  have valid: "''completed'' \<in> set valid_statuses" by (simp add: valid_statuses_def)
  note thm1 = ownership_conflict [where status = "''completed''" and s = started_demo
      and tid = 1 and row = ?row and a = "''agent1''" and agent_id = "''agent2''"]
  note thm2 = ownership_conflict [where status = "''completed''" and s = claimed_demo
      and tid = 1 and row = ?row and a = "''agent1''" and agent_id = "''agent2''"]
  from thm1 found owner valid
  have a: "main_update_todo_status 1 ''completed'' ''agent2'' started_demo =
      (Inl (AssignedToDifferentAgent ''agent1''), started_demo)" by simp
  from thm1 found
  have b: "fst (main_update_todo_status 1 ''pending'' ''agent2'' started_demo) =
      Inr \<lparr>reply_id = 1, reply_status = ''pending'', reply_assigned_agent = None\<rparr>" by simp
  from thm2 found' owner valid
  have c: "http_update_todo_status 1 ''completed'' ''agent2'' claimed_demo =
      (Inl (AssignedToDifferentAgent ''agent1''), claimed_demo)" by simp
  from found found' a b c show ?thesis by simp
qed


text \<open>
  C6 as stated does not hold for \<^verbatim>\<open>http_server.py\<close> and \<^verbatim>\<open>mcp_server_fixed.py\<close>: the
  transition to \<^verbatim>\<open>pending\<close> requested by \<^verbatim>\<open>agent2\<close> for the item that \<^verbatim>\<open>agent1\<close>
  holds is refused.
\<close>

theorem http_pending_by_other_agent_counterexample:
  "find_todo claimed_demo 1 =
     Some (item_A\<lparr>todo_status := ''in_progress'', todo_assigned_agent := Some ''agent1''\<rparr>)
   \<and> http_update_todo_status 1 ''pending'' ''agent2'' claimed_demo =
       (Inl (AssignedToDifferentAgent ''agent1''), claimed_demo)
   \<and> fixed_update_todo_status 1 ''pending'' ''agent2'' claimed_demo =
       (Inl (AssignedToDifferentAgent ''agent1''), claimed_demo)"
proof -
  let ?row = "item_A\<lparr>todo_status := ''in_progress'', todo_assigned_agent := Some ''agent1''\<rparr>"
  have found: "find_todo claimed_demo 1 = Some ?row" by code_simp
  have "http_other_owner ?row ''agent2'' = Some ''agent1''"
    by (simp add: http_other_owner_def)
  from http_update_conflict [OF pending_valid found this] found show ?thesis by simp
qed

text \<open>
  The permission check of \<^verbatim>\<open>main.py\<close> tests the stored agent for truth, so an item
  started under the empty agent id is not protected: another agent completes it.
\<close>

lemma main_empty_owner_not_protected:
  "main_find_todo (run_call (MainUpdateTodoStatus 1 ''in_progress'' '''') plan_demo) 1 =
     Some (item_A\<lparr>todo_status := ''in_progress'', todo_assigned_agent := Some ''''\<rparr>)
   \<and> fst (main_update_todo_status 1 ''completed'' ''agent2''
            (run_call (MainUpdateTodoStatus 1 ''in_progress'' '''') plan_demo)) =
       Inr \<lparr>reply_id = 1, reply_status = ''completed'', reply_assigned_agent = None\<rparr>"
  by code_simp


section \<open>Transitions out of completed and cancelled\<close>

lemma coupled_terminal_unassigned:
  "coupled row \<Longrightarrow> todo_status row \<in> set [''completed'', ''cancelled''] \<Longrightarrow>
     todo_assigned_agent row = None"
  by (auto simp: coupled_def)

text \<open>
  C8 (as amended). \<^verbatim>\<open>update_todo_status\<close> does not read the current status, so
  \<^verbatim>\<open>completed\<close> and \<^verbatim>\<open>cancelled\<close> are not terminal: for an item that is completed or
  cancelled (and therefore unassigned), a call of \<^verbatim>\<open>main.py\<close> or \<^verbatim>\<open>http_server.py\<close> with
  any valid status, by any agent, succeeds and leaves every row with that id in the
  requested status.
\<close>

theorem terminal_status_not_enforced:
  "(status \<in> set valid_statuses \<and> main_find_todo s tid = Some row \<and> coupled row
      \<and> todo_status row \<in> set [''completed'', ''cancelled''] \<longrightarrow>
      fst (main_update_todo_status tid status agent_id s) =
        Inr \<lparr>reply_id = tid, reply_status = status,
              reply_assigned_agent = (if status = ''in_progress'' then Some agent_id else None)\<rparr>
      \<and> (\<forall>t \<in> set (todo_items (snd (main_update_todo_status tid status agent_id s))).
            todo_id t = tid \<longrightarrow> todo_status t = status))
   \<and> (status \<in> set valid_statuses \<and> find_todo s tid = Some row \<and> coupled row
      \<and> todo_status row \<in> set [''completed'', ''cancelled''] \<longrightarrow>
      fst (http_update_todo_status tid status agent_id s) =
        Inr \<lparr>reply_id = tid, reply_status = status,
              reply_assigned_agent = (if status = ''in_progress'' then Some agent_id else None)\<rparr>
      \<and> (\<forall>t \<in> set (todo_items (snd (http_update_todo_status tid status agent_id s))).
            todo_id t = tid \<longrightarrow> todo_status t = status))"
proof (intro conjI impI)
  assume h: "status \<in> set valid_statuses \<and> main_find_todo s tid = Some row \<and> coupled row
      \<and> todo_status row \<in> set [''completed'', ''cancelled'']"
  then have "todo_assigned_agent row = None"
    using coupled_terminal_unassigned by blast
  then have "main_other_owner row agent_id status = None"
    by (simp add: other_owner_unassigned)
  with h have ok: "main_update_todo_status tid status agent_id s =
     (Inr \<lparr>reply_id = tid, reply_status = status,
           reply_assigned_agent = (if status = ''in_progress'' then Some agent_id else None)\<rparr>,
      s\<lparr>todo_items := update_todo tid status
            (if status = ''in_progress'' then Some agent_id else None) (todo_items s),
        file_locks :=
          (if status = ''in_progress'' then insert_locks (files_of s tid) agent_id (file_locks s)
           else if status = ''pending'' then file_locks s
           else delete_own_locks (files_of s tid) agent_id (file_locks s))\<rparr>)"
    using main_update_ok [of status s tid row agent_id] by blast
  show "fst (main_update_todo_status tid status agent_id s) =
        Inr \<lparr>reply_id = tid, reply_status = status,
              reply_assigned_agent = (if status = ''in_progress'' then Some agent_id else None)\<rparr>"
    unfolding ok by simp
  show "\<forall>t \<in> set (todo_items (snd (main_update_todo_status tid status agent_id s))).
            todo_id t = tid \<longrightarrow> todo_status t = status"
    unfolding ok using update_todo_hit [of _ tid status _ "todo_items s"] by simp
next
  assume h: "status \<in> set valid_statuses \<and> find_todo s tid = Some row \<and> coupled row
      \<and> todo_status row \<in> set [''completed'', ''cancelled'']"
  then have "todo_assigned_agent row = None"
    using coupled_terminal_unassigned by blast
  then have "http_other_owner row agent_id = None"
    by (simp add: other_owner_unassigned)
  with h have ok: "http_update_todo_status tid status agent_id s =
     (Inr \<lparr>reply_id = tid, reply_status = status,
           reply_assigned_agent = (if status = ''in_progress'' then Some agent_id else None)\<rparr>,
      s\<lparr>todo_items := update_todo tid status
            (if status = ''in_progress'' then Some agent_id else None) (todo_items s)\<rparr>)"
    using http_update_ok [of status s tid row agent_id] by blast
  show "fst (http_update_todo_status tid status agent_id s) =
        Inr \<lparr>reply_id = tid, reply_status = status,
              reply_assigned_agent = (if status = ''in_progress'' then Some agent_id else None)\<rparr>"
    unfolding ok by simp
  show "\<forall>t \<in> set (todo_items (snd (http_update_todo_status tid status agent_id s))).
            todo_id t = tid \<longrightarrow> todo_status t = status"
    unfolding ok using update_todo_hit [of _ tid status _ "todo_items s"] by simp
qed

theorem terminal_status_not_enforced_witness:
  "main_find_todo done_demo 1 = Some (item_A\<lparr>todo_status := ''completed''\<rparr>)
   \<and> fst (main_update_todo_status 1 ''pending'' ''agent2'' done_demo) =
       Inr \<lparr>reply_id = 1, reply_status = ''pending'', reply_assigned_agent = None\<rparr>
   \<and> fst (http_update_todo_status 1 ''cancelled'' ''agent2'' done_demo) =
       Inr \<lparr>reply_id = 1, reply_status = ''cancelled'', reply_assigned_agent = None\<rparr>"
proof -
  let ?row = "item_A\<lparr>todo_status := ''completed''\<rparr>"
  have found: "main_find_todo done_demo 1 = Some ?row" by code_simp
  have found': "find_todo done_demo 1 = Some ?row" by code_simp
  have row: "coupled ?row" "todo_status ?row \<in> set [''completed'', ''cancelled'']"
    by (simp_all add: coupled_def item_A_def)
  have valid: "''pending'' \<in> set valid_statuses" "''cancelled'' \<in> set valid_statuses"
    by (simp_all add: valid_statuses_def)
  note thm1 = terminal_status_not_enforced [where status = "''pending''" and s = done_demo
      and tid = 1 and row = ?row and agent_id = "''agent2''"]
  note thm2 = terminal_status_not_enforced [where status = "''cancelled''" and s = done_demo
      and tid = 1 and row = ?row and agent_id = "''agent2''"]
  from thm1 found row valid(1)
  have a: "fst (main_update_todo_status 1 ''pending'' ''agent2'' done_demo) =
      Inr \<lparr>reply_id = 1, reply_status = ''pending'', reply_assigned_agent = None\<rparr>"
    by simp
  from thm2 found' row valid(2)
  have b: "fst (http_update_todo_status 1 ''cancelled'' ''agent2'' done_demo) =
      Inr \<lparr>reply_id = 1, reply_status = ''cancelled'', reply_assigned_agent = None\<rparr>"
    by simp
  from found a b show ?thesis by simp
qed


text \<open>
  C8 as stated does not hold: item \<^verbatim>\<open>A\<close>, completed by \<^verbatim>\<open>agent1\<close>, is put back to
  \<^verbatim>\<open>in_progress\<close> by \<^verbatim>\<open>agent2\<close> through \<^verbatim>\<open>main.py\<close> and back to \<^verbatim>\<open>pending\<close> through
  \<^verbatim>\<open>http_server.py\<close>.
\<close>

theorem completed_item_restarted_counterexample:
  "map todo_status (filter (\<lambda>t. todo_id t = 1) (todo_items done_demo)) = [''completed'']
   \<and> fst (main_update_todo_status 1 ''in_progress'' ''agent2'' done_demo) =
       Inr \<lparr>reply_id = 1, reply_status = ''in_progress'', reply_assigned_agent = Some ''agent2''\<rparr>
   \<and> map todo_status (filter (\<lambda>t. todo_id t = 1)
        (todo_items (snd (main_update_todo_status 1 ''in_progress'' ''agent2'' done_demo)))) =
       [''in_progress'']
   \<and> fst (http_update_todo_status 1 ''pending'' ''agent2'' done_demo) =
       Inr \<lparr>reply_id = 1, reply_status = ''pending'', reply_assigned_agent = None\<rparr>
   \<and> map todo_status (filter (\<lambda>t. todo_id t = 1)
        (todo_items (snd (http_update_todo_status 1 ''pending'' ''agent2'' done_demo)))) =
       [''pending'']"
  by code_simp


section \<open>Locks under a status update of \<^verbatim>\<open>main.py\<close>\<close>

lemma main_update_locks:
  "file_locks (snd (main_update_todo_status tid status agent_id s)) =
     (case fst (main_update_todo_status tid status agent_id s) of
        Inl e \<Rightarrow> file_locks s
      | Inr r \<Rightarrow>
          if status = ''in_progress'' then insert_locks (files_of s tid) agent_id (file_locks s)
          else if status = ''pending'' then file_locks s
          else delete_own_locks (files_of s tid) agent_id (file_locks s))"
  using main_update_cases [of tid status agent_id s]
proof (elim disjE exE conjE)
  fix e assume "main_update_todo_status tid status agent_id s = (Inl e, s)"
  then show ?thesis by simp
next
  fix row
  assume ok: "main_update_todo_status tid status agent_id s =
     (Inr \<lparr>reply_id = tid, reply_status = status,
           reply_assigned_agent = (if status = ''in_progress'' then Some agent_id else None)\<rparr>,
      s\<lparr>todo_items := update_todo tid status
            (if status = ''in_progress'' then Some agent_id else None) (todo_items s),
        file_locks :=
          (if status = ''in_progress'' then insert_locks (files_of s tid) agent_id (file_locks s)
           else if status = ''pending'' then file_locks s
           else delete_own_locks (files_of s tid) agent_id (file_locks s))\<rparr>)"
  show ?thesis unfolding ok by simp
qed

lemma main_update_ok_valid:
  "fst (main_update_todo_status tid status agent_id s) = Inr r \<Longrightarrow> status \<in> set valid_statuses"
  using main_update_cases [of tid status agent_id s] by (elim disjE exE conjE) simp_all

lemma main_update_pending_locks:
  "file_locks (snd (main_update_todo_status tid ''pending'' agent_id s)) = file_locks s"
  unfolding main_update_locks [of tid "''pending''" agent_id s]
  by (cases "fst (main_update_todo_status tid ''pending'' agent_id s)") simp_all

lemma main_update_lock_change:
  assumes "file_locks (snd (main_update_todo_status tid status agent_id s)) p \<noteq> file_locks s p"
  shows "status = ''in_progress'' \<and> p \<in> set (files_of s tid)
          \<and> file_locks (snd (main_update_todo_status tid status agent_id s)) p = Some agent_id
        \<or> status \<in> set [''completed'', ''cancelled''] \<and> p \<in> set (files_of s tid)
          \<and> file_locks s p = Some agent_id
          \<and> file_locks (snd (main_update_todo_status tid status agent_id s)) p = None"
proof (cases "fst (main_update_todo_status tid status agent_id s)")
  case (Inl e)
  with assms show ?thesis by (simp add: main_update_locks)
next
  case (Inr r)
  from main_update_ok_valid [OF Inr] have
    "status = ''pending'' \<or> status = ''in_progress'' \<or> status = ''completed''
     \<or> status = ''cancelled''" unfolding valid_status_cases .
  then show ?thesis
  proof (elim disjE)
    assume st: "status = ''pending''"
    with assms Inr show ?thesis by (simp add: main_update_locks)
  next
    assume st: "status = ''in_progress''"
    with assms Inr show ?thesis
      by (simp add: main_update_locks insert_locks_apply split: if_splits)
  next
    assume st: "status = ''completed''"
    with assms Inr show ?thesis
      by (simp add: main_update_locks delete_own_locks_apply split: if_splits)
  next
    assume st: "status = ''cancelled''"
    with assms Inr show ?thesis
      by (simp add: main_update_locks delete_own_locks_apply split: if_splits)
  qed
qed

lemma main_update_ok_in_progress:
  assumes "fst (main_update_todo_status tid ''in_progress'' agent_id s) = Inr r"
  shows "file_locks (snd (main_update_todo_status tid ''in_progress'' agent_id s)) p =
     (if p \<in> set (files_of s tid) then Some agent_id else file_locks s p)"
  using assms by (simp add: main_update_locks insert_locks_apply)

lemma main_update_ok_terminal:
  assumes "fst (main_update_todo_status tid status agent_id s) = Inr r"
    and "status \<in> set [''completed'', ''cancelled'']"
  shows "file_locks (snd (main_update_todo_status tid status agent_id s)) p =
     (if p \<in> set (files_of s tid) \<and> file_locks s p = Some agent_id then None
      else file_locks s p)"
proof -
  from assms(2) have "status \<noteq> ''in_progress''" "status \<noteq> ''pending''" by auto
  with assms(1) show ?thesis by (simp add: main_update_locks delete_own_locks_apply)
qed

lemma main_update_pending_clears:
  assumes found: "main_find_todo s tid = Some row"
  shows "\<forall>t \<in> set (todo_items (snd (main_update_todo_status tid ''pending'' agent_id s))).
      todo_id t = tid \<longrightarrow> todo_assigned_agent t = None"
  using update_todo_hit [of _ tid "''pending''" None "todo_items s"]
  by (simp add: main_update_ok [OF pending_valid found main_other_owner_pending])

text \<open>
  C9. In \<^verbatim>\<open>main.py\<close>, \<^verbatim>\<open>update_todo_status\<close> to \<^verbatim>\<open>pending\<close> leaves \<^verbatim>\<open>file_locks\<close> as
  it was and, on an existing item, leaves the item unassigned. Whatever the call, a path
  whose lock row differs after it either is a file of the item now locked by the caller,
  in a call to \<^verbatim>\<open>in_progress\<close>, or is a file of the item that the caller held and that
  now has no row, in a call to \<^verbatim>\<open>completed\<close> or \<^verbatim>\<open>cancelled\<close>. A successful call to
  \<^verbatim>\<open>in_progress\<close> locks exactly the files of the item for the caller; a successful call
  to \<^verbatim>\<open>completed\<close> or \<^verbatim>\<open>cancelled\<close> deletes exactly the rows of the item's files that the
  caller holds.
\<close>

theorem main_update_lock_frame:
  "file_locks (snd (main_update_todo_status tid ''pending'' agent_id s)) = file_locks s
   \<and> (main_find_todo s tid = Some row \<longrightarrow>
        (\<forall>t \<in> set (todo_items (snd (main_update_todo_status tid ''pending'' agent_id s))).
           todo_id t = tid \<longrightarrow> todo_assigned_agent t = None))
   \<and> (\<forall>p. file_locks (snd (main_update_todo_status tid status agent_id s)) p \<noteq> file_locks s p \<longrightarrow>
        status = ''in_progress'' \<and> p \<in> set (files_of s tid)
          \<and> file_locks (snd (main_update_todo_status tid status agent_id s)) p = Some agent_id
        \<or> status \<in> set [''completed'', ''cancelled''] \<and> p \<in> set (files_of s tid)
          \<and> file_locks s p = Some agent_id
          \<and> file_locks (snd (main_update_todo_status tid status agent_id s)) p = None)
   \<and> (\<forall>r p. fst (main_update_todo_status tid ''in_progress'' agent_id s) = Inr r \<longrightarrow>
        file_locks (snd (main_update_todo_status tid ''in_progress'' agent_id s)) p =
          (if p \<in> set (files_of s tid) then Some agent_id else file_locks s p))
   \<and> (\<forall>r p. fst (main_update_todo_status tid status agent_id s) = Inr r
          \<and> status \<in> set [''completed'', ''cancelled''] \<longrightarrow>
        file_locks (snd (main_update_todo_status tid status agent_id s)) p =
          (if p \<in> set (files_of s tid) \<and> file_locks s p = Some agent_id then None
           else file_locks s p))"
proof (intro conjI allI impI)
  show "file_locks (snd (main_update_todo_status tid ''pending'' agent_id s)) = file_locks s"
    by (rule main_update_pending_locks)
next
  assume "main_find_todo s tid = Some row"
  then show "\<forall>t \<in> set (todo_items (snd (main_update_todo_status tid ''pending'' agent_id s))).
      todo_id t = tid \<longrightarrow> todo_assigned_agent t = None"
    by (rule main_update_pending_clears)
next
  fix p
  assume "file_locks (snd (main_update_todo_status tid status agent_id s)) p \<noteq> file_locks s p"
  then show "status = ''in_progress'' \<and> p \<in> set (files_of s tid)
          \<and> file_locks (snd (main_update_todo_status tid status agent_id s)) p = Some agent_id
        \<or> status \<in> set [''completed'', ''cancelled''] \<and> p \<in> set (files_of s tid)
          \<and> file_locks s p = Some agent_id
          \<and> file_locks (snd (main_update_todo_status tid status agent_id s)) p = None"
    by (rule main_update_lock_change)
next
  fix r p
  assume "fst (main_update_todo_status tid ''in_progress'' agent_id s) = Inr r"
  then show "file_locks (snd (main_update_todo_status tid ''in_progress'' agent_id s)) p =
      (if p \<in> set (files_of s tid) then Some agent_id else file_locks s p)"
    by (rule main_update_ok_in_progress)
next
  fix r p
  assume "fst (main_update_todo_status tid status agent_id s) = Inr r
      \<and> status \<in> set [''completed'', ''cancelled'']"
  then show "file_locks (snd (main_update_todo_status tid status agent_id s)) p =
      (if p \<in> set (files_of s tid) \<and> file_locks s p = Some agent_id then None
       else file_locks s p)"
    using main_update_ok_terminal [of tid status agent_id s r p] by blast
qed

theorem main_update_lock_frame_witness:
  "main_find_todo started_demo 1 =
     Some (item_A\<lparr>todo_status := ''in_progress'', todo_assigned_agent := Some ''agent1''\<rparr>)
   \<and> file_locks started_demo ''f1.txt'' = Some ''agent1''
   \<and> file_locks (snd (main_update_todo_status 1 ''pending'' ''agent1'' started_demo)) =
       file_locks started_demo
   \<and> list_all (\<lambda>t. todo_id t = 1 \<longrightarrow> todo_assigned_agent t = None)
        (todo_items (snd (main_update_todo_status 1 ''pending'' ''agent1'' started_demo)))
   \<and> file_locks (snd (main_update_todo_status 1 ''completed'' ''agent1'' started_demo)) ''f1.txt'' =
       None
   \<and> file_locks (snd (main_update_todo_status 1 ''in_progress'' ''agent1'' plan_demo)) ''f1.txt'' =
       Some ''agent1''"
proof -
  let ?row = "item_A\<lparr>todo_status := ''in_progress'', todo_assigned_agent := Some ''agent1''\<rparr>"
  let ?r1 = "\<lparr>reply_id = 1, reply_status = ''completed'', reply_assigned_agent = None\<rparr>"
  let ?r2 = "\<lparr>reply_id = 1, reply_status = ''in_progress'',
    reply_assigned_agent = Some ''agent1''\<rparr>"
  have found: "main_find_todo started_demo 1 = Some ?row" by code_simp
  have held: "file_locks started_demo ''f1.txt'' = Some ''agent1''" by code_simp
  have file1: "''f1.txt'' \<in> set (files_of started_demo 1)" by code_simp
  have file2: "''f1.txt'' \<in> set (files_of plan_demo 1)" by code_simp
  have finished: "fst (main_update_todo_status 1 ''completed'' ''agent1'' started_demo) = Inr ?r1"
    by code_simp
  have start: "fst (main_update_todo_status 1 ''in_progress'' ''agent1'' plan_demo) = Inr ?r2"
    by code_simp
  have terminal: "''completed'' \<in> set [''completed'', ''cancelled'']" by simp
  note thm1 = main_update_lock_frame [where tid = 1 and agent_id = "''agent1''"
      and s = started_demo and row = ?row and status = "''completed''"]
  note thm2 = main_update_lock_frame [where tid = 1 and agent_id = "''agent1''"
      and s = plan_demo and row = ?row and status = "''in_progress''"]
  note a = thm1 [THEN conjunct1]
  note b = thm1 [THEN conjunct2, THEN conjunct1, THEN mp, OF found, folded list_all_iff]
  have c: "file_locks (snd (main_update_todo_status 1 ''completed'' ''agent1'' started_demo))
      ''f1.txt'' = None"
    using thm1 [THEN conjunct2, THEN conjunct2, THEN conjunct2, THEN conjunct2, rule_format,
        of ?r1 "''f1.txt''"] finished terminal file1 held
    by simp
  have d: "file_locks (snd (main_update_todo_status 1 ''in_progress'' ''agent1'' plan_demo))
      ''f1.txt'' = Some ''agent1''"
    using thm2 [THEN conjunct2, THEN conjunct2, THEN conjunct2, THEN conjunct1, rule_format,
        of ?r2 "''f1.txt''"] start file2
    by simp
  show ?thesis
    using found held a b c d by (intro conjI) assumption+
qed


section \<open>The coupling of status and agent\<close>

lemma all_coupled_same_items:
  "todo_items s' = todo_items s \<Longrightarrow> all_coupled s \<Longrightarrow> all_coupled s'"
  by (simp add: all_coupled_def)

lemma all_coupled_update_todo:
  assumes "all_coupled s" and "st = ''in_progress'' \<longleftrightarrow> agent \<noteq> None"
  shows "all_coupled (s\<lparr>todo_items := update_todo tid st agent (todo_items s)\<rparr>)"
  using assms by (auto simp: all_coupled_def coupled_def update_todo_def)

lemma all_coupled_update_todo_locks:
  assumes "all_coupled s" and "st = ''in_progress'' \<longleftrightarrow> agent \<noteq> None"
  shows "all_coupled (s\<lparr>todo_items := update_todo tid st agent (todo_items s), file_locks := l\<rparr>)"
  using assms by (auto simp: all_coupled_def coupled_def update_todo_def)

lemma all_coupled_add_todo:
  "all_coupled s \<Longrightarrow> all_coupled (snd (add_todo tsk title description order deps files s))"
  by (auto simp: all_coupled_def coupled_def add_todo_def Let_def)

lemma all_coupled_shift:
  "all_coupled s \<Longrightarrow> all_coupled (s\<lparr>todo_items := shift_from tsk order (todo_items s)\<rparr>)"
  "all_coupled s \<Longrightarrow> all_coupled (s\<lparr>todo_items := shift_all tsk (todo_items s)\<rparr>)"
  by (auto simp: all_coupled_def coupled_def shift_from_def shift_all_def)

lemma all_coupled_add_todo_eq:
  assumes "add_todo tsk title description order deps files s = (row, s')" and "all_coupled s"
  shows "all_coupled s'"
  using all_coupled_add_todo [OF assms(2), of tsk title description order deps files] assms(1)
  by simp

lemma all_coupled_insert_after:
  assumes "all_coupled s"
  shows "all_coupled (snd (insert_after same_task tsk title description after deps files s))"
proof -
  have shifted: "all_coupled (s\<lparr>todo_items := shift_from tsk order (todo_items s)\<rparr>)"
    "all_coupled (s\<lparr>todo_items := shift_all tsk (todo_items s)\<rparr>)" for order
    using assms by (rule all_coupled_shift)+
  show ?thesis
    using assms
    by (auto simp: insert_after_def Let_def split: option.splits prod.splits if_splits
        dest: all_coupled_add_todo_eq [OF _ shifted(1)] all_coupled_add_todo_eq [OF _ shifted(2)])
qed

lemma all_coupled_create_project:
  "all_coupled s \<Longrightarrow> all_coupled (snd (create_project name description s))"
  by (auto simp: create_project_def Let_def all_coupled_def)

lemma all_coupled_create_task:
  "all_coupled s \<Longrightarrow> all_coupled (snd (create_task pname name description order deps s))"
  by (auto simp: create_task_def Let_def all_coupled_def split: option.splits)

lemma all_coupled_create_todo_item:
  "all_coupled s \<Longrightarrow>
     all_coupled (snd (main_create_todo_item tsk title description order deps files s))"
  "all_coupled s \<Longrightarrow>
     all_coupled (snd (http_create_todo_item tsk title description order deps files s))"
  by (auto simp: main_create_todo_item_def http_create_todo_item_def split: prod.splits
      dest: all_coupled_add_todo_eq)

lemma all_coupled_insert_todo_item:
  "all_coupled s \<Longrightarrow>
     all_coupled (snd (main_insert_todo_item tsk title description after deps files s))"
  "all_coupled s \<Longrightarrow>
     all_coupled (snd (http_insert_todo_item tsk title description after deps files s))"
  using all_coupled_insert_after [of s]
  by (auto simp: main_insert_todo_item_def http_insert_todo_item_def)

lemma all_coupled_get_next:
  "all_coupled s \<Longrightarrow> all_coupled (snd (main_get_next_todo_item name agent_id s))"
  "all_coupled s \<Longrightarrow> all_coupled (snd (http_get_next_todo_item name agent_id s))"
  "all_coupled s \<Longrightarrow> all_coupled (snd (fixed_get_next_todo_item name agent_id s))"
  using all_coupled_update_todo [of s "''in_progress''" "Some agent_id"]
  by (auto simp: main_get_next_read_only http_get_next_todo_item_def
      fixed_get_next_todo_item_def split: option.splits)

lemma all_coupled_main_update:
  assumes "all_coupled s"
  shows "all_coupled (snd (main_update_todo_status tid status agent_id s))"
  using main_update_cases [of tid status agent_id s]
proof (elim disjE exE conjE)
  fix e assume "main_update_todo_status tid status agent_id s = (Inl e, s)"
  with assms show ?thesis by simp
next
  fix row
  assume ok: "main_update_todo_status tid status agent_id s =
     (Inr \<lparr>reply_id = tid, reply_status = status,
           reply_assigned_agent = (if status = ''in_progress'' then Some agent_id else None)\<rparr>,
      s\<lparr>todo_items := update_todo tid status
            (if status = ''in_progress'' then Some agent_id else None) (todo_items s),
        file_locks :=
          (if status = ''in_progress'' then insert_locks (files_of s tid) agent_id (file_locks s)
           else if status = ''pending'' then file_locks s
           else delete_own_locks (files_of s tid) agent_id (file_locks s))\<rparr>)"
  have "status = ''in_progress'' \<longleftrightarrow>
      (if status = ''in_progress'' then Some agent_id else None) \<noteq> None" by simp
  from all_coupled_update_todo_locks [OF assms this] show ?thesis unfolding ok by simp
qed

lemma http_update_cases:
  "(\<exists>e. http_update_todo_status tid status agent_id s = (Inl e, s))
   \<or> http_update_todo_status tid status agent_id s =
     (Inr \<lparr>reply_id = tid, reply_status = status,
           reply_assigned_agent = (if status = ''in_progress'' then Some agent_id else None)\<rparr>,
      s\<lparr>todo_items := update_todo tid status
            (if status = ''in_progress'' then Some agent_id else None) (todo_items s)\<rparr>)"
proof (cases "status \<in> set valid_statuses")
  case False
  then show ?thesis by (simp add: http_update_todo_status_def)
next
  case valid: True
  show ?thesis
  proof (cases "find_todo s tid")
    case None
    with valid show ?thesis by (simp add: http_update_todo_status_def)
  next
    case found: (Some row)
    show ?thesis
    proof (cases "http_other_owner row agent_id")
      case None
      from http_update_ok [OF valid found None] show ?thesis by blast
    next
      case (Some a)
      from http_update_conflict [OF valid found Some] show ?thesis by blast
    qed
  qed
qed

lemma all_coupled_http_update:
  assumes "all_coupled s"
  shows "all_coupled (snd (http_update_todo_status tid status agent_id s))"
  using http_update_cases [of tid status agent_id s]
proof (elim disjE exE)
  fix e assume "http_update_todo_status tid status agent_id s = (Inl e, s)"
  with assms show ?thesis by simp
next
  assume ok: "http_update_todo_status tid status agent_id s =
     (Inr \<lparr>reply_id = tid, reply_status = status,
           reply_assigned_agent = (if status = ''in_progress'' then Some agent_id else None)\<rparr>,
      s\<lparr>todo_items := update_todo tid status
            (if status = ''in_progress'' then Some agent_id else None) (todo_items s)\<rparr>)"
  have "status = ''in_progress'' \<longleftrightarrow>
      (if status = ''in_progress'' then Some agent_id else None) \<noteq> None" by simp
  from all_coupled_update_todo [OF assms this] show ?thesis unfolding ok by simp
qed

lemma all_coupled_locks:
  "all_coupled s \<Longrightarrow> all_coupled (snd (lock_files files agent_id s))"
  "all_coupled s \<Longrightarrow> all_coupled (snd (unlock_files files agent_id s))"
  by (auto simp: lock_files_def unlock_files_def Let_def all_coupled_def split: prod.splits)

lemma all_coupled_run_call: "all_coupled s \<Longrightarrow> all_coupled (run_call c s)"
  by (cases c)
    (simp_all add: all_coupled_create_project all_coupled_create_task
      all_coupled_create_todo_item all_coupled_insert_todo_item all_coupled_get_next
      all_coupled_main_update all_coupled_http_update fixed_update_eq_http all_coupled_locks)

lemma all_coupled_run_calls: "all_coupled s \<Longrightarrow> all_coupled (run_calls cs s)"
  by (induction cs arbitrary: s) (simp_all add: all_coupled_run_call)

lemma all_coupled_empty: "all_coupled empty_db"
  by (simp add: all_coupled_def empty_db_def)

lemma main_update_sets_agent:
  assumes "fst (main_update_todo_status tid status agent_id s) = Inr r"
  shows "\<forall>t \<in> set (todo_items (snd (main_update_todo_status tid status agent_id s))).
      todo_id t = tid \<longrightarrow> todo_status t = status
        \<and> todo_assigned_agent t = (if status = ''in_progress'' then Some agent_id else None)"
  using main_update_cases [of tid status agent_id s]
proof (elim disjE exE conjE)
  fix e assume "main_update_todo_status tid status agent_id s = (Inl e, s)"
  with assms show ?thesis by simp
next
  fix row
  assume ok: "main_update_todo_status tid status agent_id s =
     (Inr \<lparr>reply_id = tid, reply_status = status,
           reply_assigned_agent = (if status = ''in_progress'' then Some agent_id else None)\<rparr>,
      s\<lparr>todo_items := update_todo tid status
            (if status = ''in_progress'' then Some agent_id else None) (todo_items s),
        file_locks :=
          (if status = ''in_progress'' then insert_locks (files_of s tid) agent_id (file_locks s)
           else if status = ''pending'' then file_locks s
           else delete_own_locks (files_of s tid) agent_id (file_locks s))\<rparr>)"
  show ?thesis
    unfolding ok
    using update_todo_hit [of _ tid status
        "if status = ''in_progress'' then Some agent_id else None" "todo_items s"]
    by simp
qed

lemma http_update_sets_agent:
  assumes "fst (http_update_todo_status tid status agent_id s) = Inr r"
  shows "\<forall>t \<in> set (todo_items (snd (http_update_todo_status tid status agent_id s))).
      todo_id t = tid \<longrightarrow> todo_status t = status
        \<and> todo_assigned_agent t = (if status = ''in_progress'' then Some agent_id else None)"
  using http_update_cases [of tid status agent_id s]
proof (elim disjE exE)
  fix e assume "http_update_todo_status tid status agent_id s = (Inl e, s)"
  with assms show ?thesis by simp
next
  assume ok: "http_update_todo_status tid status agent_id s =
     (Inr \<lparr>reply_id = tid, reply_status = status,
           reply_assigned_agent = (if status = ''in_progress'' then Some agent_id else None)\<rparr>,
      s\<lparr>todo_items := update_todo tid status
            (if status = ''in_progress'' then Some agent_id else None) (todo_items s)\<rparr>)"
  show ?thesis
    unfolding ok
    using update_todo_hit [of _ tid status
        "if status = ''in_progress'' then Some agent_id else None" "todo_items s"]
    by simp
qed

text \<open>
  C3. In every database reached from the empty one by tool calls of the three servers,
  a todo item is \<^verbatim>\<open>in_progress\<close> if and only if its \<^verbatim>\<open>assigned_agent\<close> is not null.
  Every tool call, and in particular every \<^verbatim>\<open>update_todo_status\<close> call of each server,
  keeps the coupling, and a successful \<^verbatim>\<open>update_todo_status\<close> leaves the item in the
  requested status, assigned to the caller for \<^verbatim>\<open>in_progress\<close> and unassigned for every
  other status.
\<close>

theorem status_agent_coupling:
  "(\<forall>t \<in> set (todo_items (run_calls cs empty_db)).
      todo_status t = ''in_progress'' \<longleftrightarrow> todo_assigned_agent t \<noteq> None)
   \<and> (all_coupled s \<longrightarrow>
        all_coupled (run_call c s)
        \<and> all_coupled (snd (main_update_todo_status tid status agent_id s))
        \<and> all_coupled (snd (http_update_todo_status tid status agent_id s))
        \<and> all_coupled (snd (fixed_update_todo_status tid status agent_id s)))
   \<and> (\<forall>r. fst (main_update_todo_status tid status agent_id s) = Inr r \<longrightarrow>
        (\<forall>t \<in> set (todo_items (snd (main_update_todo_status tid status agent_id s))).
           todo_id t = tid \<longrightarrow> todo_status t = status
             \<and> todo_assigned_agent t = (if status = ''in_progress'' then Some agent_id else None)))
   \<and> (\<forall>r. fst (http_update_todo_status tid status agent_id s) = Inr r \<longrightarrow>
        (\<forall>t \<in> set (todo_items (snd (http_update_todo_status tid status agent_id s))).
           todo_id t = tid \<longrightarrow> todo_status t = status
             \<and> todo_assigned_agent t = (if status = ''in_progress'' then Some agent_id else None)))"
proof (intro conjI allI impI)
  have "all_coupled (run_calls cs empty_db)"
    using all_coupled_empty by (rule all_coupled_run_calls)
  then show "\<forall>t \<in> set (todo_items (run_calls cs empty_db)).
      todo_status t = ''in_progress'' \<longleftrightarrow> todo_assigned_agent t \<noteq> None"
    by (simp add: all_coupled_def coupled_def)
next
  assume inv: "all_coupled s"
  then show "all_coupled (run_call c s)" by (rule all_coupled_run_call)
  from inv show "all_coupled (snd (main_update_todo_status tid status agent_id s))"
    by (rule all_coupled_main_update)
  from inv show "all_coupled (snd (http_update_todo_status tid status agent_id s))"
    by (rule all_coupled_http_update)
  from inv show "all_coupled (snd (fixed_update_todo_status tid status agent_id s))"
    by (simp add: fixed_update_eq_http all_coupled_http_update)
next
  fix r assume "fst (main_update_todo_status tid status agent_id s) = Inr r"
  then show "\<forall>t \<in> set (todo_items (snd (main_update_todo_status tid status agent_id s))).
           todo_id t = tid \<longrightarrow> todo_status t = status
             \<and> todo_assigned_agent t = (if status = ''in_progress'' then Some agent_id else None)"
    by (rule main_update_sets_agent)
next
  fix r assume "fst (http_update_todo_status tid status agent_id s) = Inr r"
  then show "\<forall>t \<in> set (todo_items (snd (http_update_todo_status tid status agent_id s))).
           todo_id t = tid \<longrightarrow> todo_status t = status
             \<and> todo_assigned_agent t = (if status = ''in_progress'' then Some agent_id else None)"
    by (rule http_update_sets_agent)
qed

theorem status_agent_coupling_witness:
  "item_A\<lparr>todo_status := ''in_progress'', todo_assigned_agent := Some ''agent1''\<rparr>
     \<in> set (todo_items claimed_demo)
   \<and> all_coupled claimed_demo
   \<and> all_coupled started_demo
   \<and> all_coupled (snd (main_update_todo_status 1 ''completed'' ''agent1'' started_demo))
   \<and> list_all (\<lambda>t. todo_id t = 1 \<longrightarrow>
                  todo_status t = ''completed'' \<and> todo_assigned_agent t = None)
        (todo_items (snd (main_update_todo_status 1 ''completed'' ''agent1'' started_demo)))"
proof -
  let ?cs = "[CreateProject ''P'' ''plan'', CreateTask ''P'' ''T'' ''task'' 0 [],
      MainCreateTodoItem 1 ''A'' '''' 0 [] [''f1.txt''],
      MainCreateTodoItem 1 ''B'' '''' 1 [1] [''f1.txt''],
      HttpGetNextTodoItem ''P'' ''agent1'']"
  let ?r = "\<lparr>reply_id = 1, reply_status = ''completed'', reply_assigned_agent = None\<rparr>"
  have reach: "claimed_demo = run_calls ?cs empty_db"
    by (simp add: claimed_demo_def plan_demo_def)
  have mem: "item_A\<lparr>todo_status := ''in_progress'', todo_assigned_agent := Some ''agent1''\<rparr>
      \<in> set (todo_items claimed_demo)" by code_simp
  have inv: "all_coupled started_demo" by code_simp
  have ok: "fst (main_update_todo_status 1 ''completed'' ''agent1'' started_demo) = Inr ?r"
    by code_simp
  note inst = status_agent_coupling [where cs = "?cs" and s = started_demo and tid = 1
      and status = "''completed''" and agent_id = "''agent1''"]
  have a: "all_coupled claimed_demo"
    using inst [THEN conjunct1, folded reach] by (simp add: all_coupled_def coupled_def)
  note b = inst [THEN conjunct2, THEN conjunct1, THEN mp, OF inv, THEN conjunct2, THEN conjunct1]
  have c: "list_all (\<lambda>t. todo_id t = 1 \<longrightarrow>
                  todo_status t = ''completed'' \<and> todo_assigned_agent t = None)
        (todo_items (snd (main_update_todo_status 1 ''completed'' ''agent1'' started_demo)))"
    using inst [THEN conjunct2, THEN conjunct2, THEN conjunct1, THEN spec, THEN mp, OF ok]
    by (simp add: list_all_iff)
  show ?thesis
    using mem a inv b c by (intro conjI) assumption+
qed


section \<open>Dependencies in the selection\<close>

lemma picked_dependencies_completed:
  assumes "first_in_order (available_todos s pid agent_id) = Some row"
  shows "\<not> has_incomplete_dependency s row"
proof -
  from first_in_order_mem [OF assms] obtain task :: task_row
    where "(task, row) \<in> set (available_todos s pid agent_id)" ..
  then show ?thesis unfolding available_todos_iff by blast
qed

lemma fixed_picked_dependencies_completed:
  assumes "first_in_order (fixed_available_todos s pid) = Some row"
  shows "\<not> has_incomplete_dependency s row"
proof -
  from first_in_order_mem [OF assms] obtain task :: task_row
    where "(task, row) \<in> set (fixed_available_todos s pid)" ..
  then show ?thesis unfolding fixed_available_todos_iff by blast
qed

lemma no_incomplete_dependency_iff:
  "\<not> has_incomplete_dependency s t \<longleftrightarrow>
     (\<forall>dep \<in> set (todo_items s).
        (todo_id t, todo_id dep) \<in> set (todo_dependencies s) \<longrightarrow> todo_status dep = ''completed'')"
  by (force simp: has_incomplete_dependency_def)

lemma has_incomplete_dependency_id:
  "todo_id t' = todo_id t \<Longrightarrow> has_incomplete_dependency s t' = has_incomplete_dependency s t"
  by (simp add: has_incomplete_dependency_def)

text \<open>
  The part of C2 that all servers keep: a returned item has no dependency on an
  existing todo item that is not completed. (In \<^verbatim>\<open>main.py\<close>, \<^verbatim>\<open>http_server.py\<close> and
  \<^verbatim>\<open>mcp_server_fixed.py\<close> a dependency on an id that has no row is dropped by the join
  and does not block.)
\<close>

lemma get_next_todo_dependencies_completed:
  "fst (main_get_next_todo_item name agent_id s) = Inr (Some (item, files)) \<Longrightarrow>
     \<forall>dep \<in> set (todo_items s).
       (todo_id item, todo_id dep) \<in> set (todo_dependencies s) \<longrightarrow> todo_status dep = ''completed''"
  "fst (http_get_next_todo_item name agent_id s) = Inr (Some (item, files)) \<Longrightarrow>
     \<forall>dep \<in> set (todo_items s).
       (todo_id item, todo_id dep) \<in> set (todo_dependencies s) \<longrightarrow> todo_status dep = ''completed''"
  "fst (fixed_get_next_todo_item name agent_id s) = Inr (Some (item, files)) \<Longrightarrow>
     \<forall>dep \<in> set (todo_items s).
       (todo_id item, todo_id dep) \<in> set (todo_dependencies s) \<longrightarrow> todo_status dep = ''completed''"
proof -
  assume "fst (main_get_next_todo_item name agent_id s) = Inr (Some (item, files))"
  from main_get_next_cases [OF this] obtain p :: project_row where
    "first_in_order (available_todos s (project_id p) agent_id) = Some item" by blast
  from picked_dependencies_completed [OF this]
  show "\<forall>dep \<in> set (todo_items s).
       (todo_id item, todo_id dep) \<in> set (todo_dependencies s) \<longrightarrow> todo_status dep = ''completed''"
    unfolding no_incomplete_dependency_iff .
next
  assume "fst (http_get_next_todo_item name agent_id s) = Inr (Some (item, files))"
  then have "http_get_next_todo_item name agent_id s =
      (Inr (Some (item, files)), snd (http_get_next_todo_item name agent_id s))"
    by (simp add: prod_eq_iff)
  from http_get_next_cases [OF this] obtain p :: project_row and row :: todo_row where
    pick: "first_in_order (available_todos s (project_id p) agent_id) = Some row"
    and item: "item = row\<lparr>todo_status := ''in_progress'', todo_assigned_agent := Some agent_id\<rparr>"
    by blast
  from item have "todo_id item = todo_id row" by simp
  from picked_dependencies_completed [OF pick] has_incomplete_dependency_id [OF this, of s]
  show "\<forall>dep \<in> set (todo_items s).
       (todo_id item, todo_id dep) \<in> set (todo_dependencies s) \<longrightarrow> todo_status dep = ''completed''"
    unfolding no_incomplete_dependency_iff [symmetric] by simp
next
  assume "fst (fixed_get_next_todo_item name agent_id s) = Inr (Some (item, files))"
  then have "fixed_get_next_todo_item name agent_id s =
      (Inr (Some (item, files)), snd (fixed_get_next_todo_item name agent_id s))"
    by (simp add: prod_eq_iff)
  from fixed_get_next_cases [OF this] obtain p :: project_row and row :: todo_row where
    pick: "first_in_order (fixed_available_todos s (project_id p)) = Some row"
    and item: "item = row\<lparr>todo_status := ''in_progress'', todo_assigned_agent := Some agent_id\<rparr>"
    by blast
  from item have "todo_id item = todo_id row" by simp
  from fixed_picked_dependencies_completed [OF pick] has_incomplete_dependency_id [OF this, of s]
  show "\<forall>dep \<in> set (todo_items s).
       (todo_id item, todo_id dep) \<in> set (todo_dependencies s) \<longrightarrow> todo_status dep = ''completed''"
    unfolding no_incomplete_dependency_iff [symmetric] by simp
qed

text \<open>
  \<^verbatim>\<open>_get_next_todo_item\<close> of \<^verbatim>\<open>server.py\<close> checks both levels: every todo dependency of
  the returned item is a completed item, and no task that the item's task depends on is
  left incomplete.
\<close>

lemma server_get_next_dependencies_completed:
  assumes "fst (server_get_next_todo_item pname agent_id s) = Inr (Some (ti, files))"
  shows "(\<forall>dep_id \<in> set (stodo_dependencies ti).
            \<exists>dep \<in> set (server_todo_items s). stodo_id dep = dep_id \<and> stodo_status dep = ''completed'')
    \<and> (\<exists>t \<in> set (server_tasks s). stask_id t = stodo_task_id ti
          \<and> (\<forall>d \<in> set (server_tasks s).
                stask_id d \<in> set (stask_dependencies t) \<longrightarrow> stask_status d = ''completed''))"
proof -
  from assms obtain p :: project_row and t :: server_task_row where
    found: "find (server_item_available s (server_completed_ids s (project_id p)))
        (server_project_todos s (project_id p)) = Some (t, ti)"
    by (auto simp: server_get_next_todo_item_def split: option.splits prod.splits)
  then have avail: "server_item_available s (server_completed_ids s (project_id p)) (t, ti)"
    and mem: "(t, ti) \<in> set (server_project_todos s (project_id p))"
    by (auto simp: find_Some_iff in_set_conv_nth)
  from mem have task: "t \<in> set (server_tasks s)" "stodo_task_id ti = stask_id t"
    by (auto simp: server_project_todos_def)
  from avail have deps: "\<forall>dep_id \<in> set (stodo_dependencies ti).
      dep_id \<in> set (server_completed_ids s (project_id p))"
    and tasks: "stask_dependencies t = [] \<or> server_incomplete_tasks s (stask_dependencies t) = 0"
    by (auto simp: server_item_available_def)
  have "\<exists>dep \<in> set (server_todo_items s). stodo_id dep = dep_id \<and> stodo_status dep = ''completed''"
    if "dep_id \<in> set (server_completed_ids s (project_id p))" for dep_id
    using that by (auto simp: server_completed_ids_def)
  with deps have a: "\<forall>dep_id \<in> set (stodo_dependencies ti).
      \<exists>dep \<in> set (server_todo_items s). stodo_id dep = dep_id \<and> stodo_status dep = ''completed''"
    by blast
  from tasks have b: "\<forall>d \<in> set (server_tasks s).
      stask_id d \<in> set (stask_dependencies t) \<longrightarrow> stask_status d = ''completed''"
    by (auto simp: server_incomplete_tasks_def filter_empty_conv)
  from a b task show ?thesis by auto
qed

text \<open>
  C2 fails on \<^verbatim>\<open>main.py\<close>, \<^verbatim>\<open>http_server.py\<close> and \<^verbatim>\<open>mcp_server_fixed.py\<close>, whose queries
  never read \<^verbatim>\<open>task_dependencies\<close>: task 2 depends on task 1, task 1 is pending with its
  item \<^verbatim>\<open>A\<close> in progress, and item \<^verbatim>\<open>B\<close> of task 2 is returned to \<^verbatim>\<open>agent2\<close>.
\<close>

theorem get_next_ignores_task_dependencies:
  "(2, 1) \<in> set (task_dependencies tasks_demo)
   \<and> map task_status (filter (\<lambda>t. task_id t = 1) (tasks tasks_demo)) = [''pending'']
   \<and> map todo_status (filter (\<lambda>t. todo_task_id t = 1) (todo_items tasks_demo)) = [''in_progress'']
   \<and> todo_task_id task2_item_B = 2
   \<and> fst (main_get_next_todo_item ''P'' ''agent2'' tasks_demo) = Inr (Some (task2_item_B, []))
   \<and> fst (http_get_next_todo_item ''P'' ''agent2'' tasks_demo) =
       Inr (Some (task2_item_B\<lparr>todo_status := ''in_progress'',
                               todo_assigned_agent := Some ''agent2''\<rparr>, []))
   \<and> fst (fixed_get_next_todo_item ''P'' ''agent2'' tasks_demo) =
       Inr (Some (task2_item_B\<lparr>todo_status := ''in_progress'',
                               todo_assigned_agent := Some ''agent2''\<rparr>, []))"
  by code_simp

text \<open>On the same plan \<^verbatim>\<open>server.py\<close> offers nothing.\<close>

lemma server_get_next_waits_for_task:
  "fst (server_get_next_todo_item ''P'' ''agent2'' server_tasks_demo) = Inr None"
  by code_simp


section \<open>Project status\<close>

lemma to_double_zero: "to_double 0 = 0"
  by (simp add: to_double_def)

text \<open>The division never raises: the divisor \<^verbatim>\<open>max(total_todos, 1)\<close> is at least one.\<close>

lemma completion_percentage_value:
  "completion_percentage n_completed n_total =
     Inr (py_round1 (py_mul (to_double (of_int n_completed / of_int (max n_total 1))) 100))"
  by (simp add: completion_percentage_def py_truediv_def)

lemma completion_percentage_never_raises: "completion_percentage n_completed n_total \<noteq> Inl e"
  by (simp add: completion_percentage_value)

lemma completion_percentage_zero: "completion_percentage 0 n_total = Inr 0"
  by (simp add: completion_percentage_value py_mul_def py_round1_def to_double_zero
      round_half_even_def)

text \<open>
  The percentage on some counts. All of one, half and an eighth are exact; 23 of 80,
  a third, two thirds and a sixteenth give the doubles nearest to 28.7, 33.3, 66.7 and
  6.2 (the product \<^verbatim>\<open>(23 / 80) * 100\<close> is a double just below 28.75, and 6.25 is a tie).
\<close>

lemma completion_percentage_examples:
  "completion_percentage 3 3 = Inr 100"
  "completion_percentage 1 2 = Inr 50"
  "completion_percentage 1 8 = Inr (25 / 2)"
  "completion_percentage 23 80 = Inr (to_double (287 / 10))"
  "completion_percentage 1 3 = Inr (to_double (333 / 10))"
  "completion_percentage 2 3 = Inr (to_double (667 / 10))"
  "completion_percentage 1 16 = Inr (to_double (62 / 10))"
  "to_double (287 / 10) = 8078331831595827 / 281474976710656"
  "to_double (333 / 10) = 2343279181116211 / 70368744177664"
  by code_simp+

lemma count_when_zero:
  assumes "count_when (\<lambda>st. True) rows = 0"
  shows "count_when wanted rows = 0"
  using assms by (simp add: count_when_def)

lemma count_task_todos_zero:
  "count_task_todos s tsk (\<lambda>st. True) = 0 \<Longrightarrow> count_task_todos s tsk wanted = 0"
  by (simp add: count_task_todos_def count_when_zero)

lemma count_rows_zero:
  "int (length rows) = 0 \<Longrightarrow> count_rows status_of wanted rows = 0"
  by (simp add: count_rows_def)

lemma main_task_stats_total:
  "\<exists>task_list. main_task_stats s rows = Inr task_list
     \<and> map stats_task task_list = rows \<and> (\<forall>ts \<in> set task_list. task_stats_ok s ts)"
proof (induction rows)
  case Nil
  show ?case by simp
next
  case (Cons task_row rows)
  then obtain task_list :: "task_stats list" where rest: "main_task_stats s rows = Inr task_list"
    and rows: "map stats_task task_list = rows"
    and ok: "\<forall>ts \<in> set task_list. task_stats_ok s ts"
    by blast
  let ?n_total = "count_task_todos s (task_id task_row) (\<lambda>st. True)"
  let ?n_completed = "count_task_todos s (task_id task_row) (\<lambda>st. st = ''completed'')"
  let ?pct = "py_round1 (py_mul (to_double (of_int ?n_completed / of_int (max ?n_total 1))) 100)"
  let ?ts = "\<lparr>stats_task = task_row, total_todos = ?n_total, completed_todos = ?n_completed,
      in_progress_todos = count_task_todos s (task_id task_row) (\<lambda>st. st = ''in_progress''),
      pending_todos = count_task_todos s (task_id task_row) (\<lambda>st. st = ''pending''),
      task_completion_percentage = Some ?pct\<rparr>"
  have step: "main_task_stats s (task_row # rows) = Inr (?ts # task_list)"
    by (simp add: Let_def completion_percentage_value rest)
  have "task_stats_ok s ?ts"
    by (simp add: task_stats_ok_def)
  with ok have all_ok: "\<forall>ts \<in> set (?ts # task_list). task_stats_ok s ts" by simp
  have tasks: "map stats_task (?ts # task_list) = task_row # rows" using rows by simp
  show ?case
    by (rule exI [of _ "?ts # task_list"]) (intro conjI step tasks all_ok)
qed

lemma overall_stats_total:
  "\<exists>r. overall_stats status_of s p task_list = Inr (Inr r)
     \<and> stats_project r = p \<and> stats_tasks r = task_list
     \<and> overall_total_todos r = int (length (project_rows s (project_id p)))
     \<and> overall_completed_todos r =
         count_rows status_of (\<lambda>st. st = ''completed'') (project_rows s (project_id p))
     \<and> overall_in_progress_todos r =
         count_rows status_of (\<lambda>st. st = ''in_progress'') (project_rows s (project_id p))
     \<and> overall_pending_todos r =
         count_rows status_of (\<lambda>st. st = ''pending'') (project_rows s (project_id p))
     \<and> overall_completion_percentage r =
         py_round1 (py_mul (to_double (of_int (overall_completed_todos r) /
                                        of_int (max (overall_total_todos r) 1))) 100)"
  by (simp add: overall_stats_def Let_def completion_percentage_value)

lemma task_stats_zero:
  assumes "task_stats_ok s ts" and "total_todos ts = 0"
  shows "task_completion_percentage ts = Some 0"
proof -
  from assms have "completed_todos ts = 0"
    using count_task_todos_zero [of s "task_id (stats_task ts)"] by (simp add: task_stats_ok_def)
  moreover have "completion_percentage 0 0 = Inr 0" by (rule completion_percentage_zero)
  ultimately show ?thesis
    using assms by (simp add: task_stats_ok_def completion_percentage_value)
qed

lemma overall_zero:
  assumes "overall_total_todos r = int (length rows)"
    and "overall_completed_todos r = count_rows status_of wanted rows"
    and "overall_completion_percentage r =
         py_round1 (py_mul (to_double (of_int (overall_completed_todos r) /
                                        of_int (max (overall_total_todos r) 1))) 100)"
    and "overall_total_todos r = 0"
  shows "overall_completion_percentage r = 0"
proof -
  from assms(1,2,4) have "overall_completed_todos r = 0"
    using count_rows_zero [of rows status_of wanted] by simp
  moreover have "completion_percentage 0 0 = Inr 0" by (rule completion_percentage_zero)
  ultimately show ?thesis
    using assms(3,4) by (simp add: completion_percentage_value)
qed

text \<open>
  \<^verbatim>\<open>get_project_status\<close> of \<^verbatim>\<open>main.py\<close> is total: for every existing project it returns
  a status, never an error reply or an exception. The status lists the tasks of the
  project by id, its overall counts are the counts of the todo items of the project, its
  overall \<^verbatim>\<open>completion_percentage\<close> is \<^verbatim>\<open>round((completed / max(total, 1)) * 100, 1)\<close> on
  these counts and is zero when the project has no todo items, and every task summary
  carries the counts of its task and the percentage of these counts, zero when the task
  has no todo items.
\<close>

lemma main_get_project_status_total:
  assumes found: "project_by_name s name = Some p"
  shows "\<exists>r. main_get_project_status name s = Inr (Inr r)
     \<and> stats_project r = p
     \<and> map stats_task (stats_tasks r) =
         sort_key task_id (filter (\<lambda>t. task_project_id t = project_id p) (tasks s))
     \<and> overall_total_todos r = int (length (project_rows s (project_id p)))
     \<and> overall_completed_todos r =
         count_rows (\<lambda>(ti, t). todo_status ti) (\<lambda>st. st = ''completed'')
           (project_rows s (project_id p))
     \<and> overall_completion_percentage r =
         py_round1 (py_mul (to_double (of_int (overall_completed_todos r) /
                                        of_int (max (overall_total_todos r) 1))) 100)
     \<and> (overall_total_todos r = 0 \<longrightarrow> overall_completion_percentage r = 0)
     \<and> (\<forall>ts \<in> set (stats_tasks r).
           task_stats_ok s ts
           \<and> (total_todos ts = 0 \<longrightarrow> task_completion_percentage ts = Some 0))"
proof -
  let ?rows = "sort_key task_id (filter (\<lambda>t. task_project_id t = project_id p) (tasks s))"
  from main_task_stats_total [of s ?rows] obtain task_list :: "task_stats list"
    where tasks: "main_task_stats s ?rows = Inr task_list"
      and listed: "map stats_task task_list = ?rows"
      and ok: "\<forall>ts \<in> set task_list. task_stats_ok s ts" by blast
  from overall_stats_total [of "\<lambda>(ti, t). todo_status ti" s p task_list]
  obtain r :: project_stats
    where r: "overall_stats (\<lambda>(ti, t). todo_status ti) s p task_list = Inr (Inr r)"
      "stats_project r = p" "stats_tasks r = task_list"
      "overall_total_todos r = int (length (project_rows s (project_id p)))"
      "overall_completed_todos r =
         count_rows (\<lambda>(ti, t). todo_status ti) (\<lambda>st. st = ''completed'')
           (project_rows s (project_id p))"
      "overall_completion_percentage r =
         py_round1 (py_mul (to_double (of_int (overall_completed_todos r) /
                                        of_int (max (overall_total_todos r) 1))) 100)"
    by blast
  have main: "main_get_project_status name s = Inr (Inr r)"
    by (simp add: main_get_project_status_def found tasks r(1))
  have listed': "map stats_task (stats_tasks r) = ?rows" unfolding r(3) by (rule listed)
  have zero: "overall_total_todos r = 0 \<longrightarrow> overall_completion_percentage r = 0"
    using overall_zero [OF r(4) r(5) r(6)] by blast
  have each: "\<forall>ts \<in> set (stats_tasks r).
      task_stats_ok s ts \<and> (total_todos ts = 0 \<longrightarrow> task_completion_percentage ts = Some 0)"
    using ok task_stats_zero [of s] unfolding r(3) by blast
  show ?thesis
    by (rule exI [of _ r]) (intro conjI main r(2) listed' r(4) r(5) r(6) zero each)
qed

text \<open>
  The overall query of \<^verbatim>\<open>http_server.py\<close> and \<^verbatim>\<open>mcp_server_fixed.py\<close> cannot be prepared:
  \<^verbatim>\<open>status\<close> is a column of \<^verbatim>\<open>todo_items\<close> and of \<^verbatim>\<open>tasks\<close>. So for every existing
  project \<^verbatim>\<open>get_project_status\<close> of these two servers ends in the exception, whatever the
  tables hold; only a project that does not exist gets a reply.
\<close>

lemma status_column_ambiguous:
  "resolve_column ''status'' [(''ti'', todo_items_columns), (''t'', tasks_columns)] =
     Inl (OperationalError ''ambiguous column name: status'')"
  by code_simp

lemma http_get_project_status_cases:
  "http_get_project_status name s =
     (case project_by_name s name of
        None \<Rightarrow> Inr (Inl (ProjectNotFound name))
      | Some p \<Rightarrow> Inl (OperationalError ''ambiguous column name: status''))"
  by (simp add: http_get_project_status_def status_column_ambiguous Let_def
      split: option.splits)

text \<open>
  C10. \<^verbatim>\<open>get_project_status\<close> of \<^verbatim>\<open>http_server.py\<close> (and of \<^verbatim>\<open>mcp_server_fixed.py\<close>) does
  not return a \<^verbatim>\<open>completion_percentage\<close> for an existing project. On the project \<^verbatim>\<open>P\<close>
  with one task and no todo item, and on the plan with one of three items completed,
  the call ends in \<^verbatim>\<open>sqlite3.OperationalError\<close>, "ambiguous column name: status".
  \<^verbatim>\<open>get_project_status\<close> of \<^verbatim>\<open>main.py\<close> returns a status on both: zero of zero items
  gives 0.0 overall and for the task, and one of three gives the double nearest to 33.3.
\<close>

theorem http_get_project_status_raises:
  "http_get_project_status ''P'' empty_task_demo =
     Inl (OperationalError ''ambiguous column name: status'')
   \<and> http_get_project_status ''P'' one_of_three_demo =
     Inl (OperationalError ''ambiguous column name: status'')
   \<and> main_get_project_status ''P'' empty_task_demo =
     Inr (Inr \<lparr>stats_project =
                 \<lparr>project_id = 1, project_name = ''P'', project_description = ''plan'',
                   project_status = ''pending''\<rparr>,
               stats_tasks =
                 [\<lparr>stats_task =
                      \<lparr>task_id = 1, task_project_id = 1, task_name = ''T'',
                        task_description = ''task'', task_order_index = 0,
                        task_status = ''pending''\<rparr>,
                    total_todos = 0, completed_todos = 0, in_progress_todos = 0,
                    pending_todos = 0, task_completion_percentage = Some 0\<rparr>],
               overall_total_todos = 0, overall_completed_todos = 0,
               overall_in_progress_todos = 0, overall_pending_todos = 0,
               overall_completion_percentage = 0\<rparr>)
   \<and> main_get_project_status ''P'' one_of_three_demo =
     Inr (Inr \<lparr>stats_project =
                 \<lparr>project_id = 1, project_name = ''P'', project_description = ''plan'',
                   project_status = ''pending''\<rparr>,
               stats_tasks =
                 [\<lparr>stats_task =
                      \<lparr>task_id = 1, task_project_id = 1, task_name = ''T'',
                        task_description = ''task'', task_order_index = 0,
                        task_status = ''pending''\<rparr>,
                    total_todos = 3, completed_todos = 1, in_progress_todos = 0,
                    pending_todos = 2,
                    task_completion_percentage = Some (2343279181116211 / 70368744177664)\<rparr>],
               overall_total_todos = 3, overall_completed_todos = 1,
               overall_in_progress_todos = 0, overall_pending_todos = 2,
               overall_completion_percentage = 2343279181116211 / 70368744177664\<rparr>)"
  by code_simp


section \<open>Lock release in \<^verbatim>\<open>server.py\<close>\<close>

lemma distinct_map_eq:
  "distinct (map g xs) \<Longrightarrow> x \<in> set xs \<Longrightarrow> y \<in> set xs \<Longrightarrow> g x = g y \<Longrightarrow> x = y"
  by (auto simp: distinct_map inj_on_def)

lemma find_SomeD: "find P xs = Some x \<Longrightarrow> x \<in> set xs \<and> P x"
  by (auto simp: find_Some_iff in_set_conv_nth)

text \<open>The \<^verbatim>\<open>UPDATE files ... WHERE id = ?\<close> that unlocks one row.\<close>

lemma server_unlock_row:
  assumes ids: "distinct (map sfile_id rows)" and paths: "distinct (map sfile_path rows)"
    and r: "r \<in> set rows" "sfile_path r = p" "sfile_locked r" "sfile_locked_by r = Some agent_id"
  defines "rows' \<equiv> map (\<lambda>f. if sfile_id f = sfile_id r
      then f\<lparr>sfile_locked := False, sfile_locked_by := None\<rparr> else f) rows"
  shows "map sfile_id rows' = map sfile_id rows" and "map sfile_path rows' = map sfile_path rows"
    and "map (server_release ps agent_id) rows' = map (server_release (p # ps) agent_id) rows"
    and "server_own rows' agent_id q \<longleftrightarrow> server_own rows agent_id q \<and> q \<noteq> p"
    and "server_foreign rows' agent_id q \<longleftrightarrow> server_foreign rows agent_id q"
    and "\<not> server_foreign rows agent_id p"
proof -
  have same: "f = r" if "f \<in> set rows" "sfile_id f = sfile_id r" for f
    using distinct_map_eq [OF ids that(1) r(1) that(2)] .
  have same_path: "f = r" if "f \<in> set rows" "sfile_path f = p" for f
    using distinct_map_eq [OF paths that(1) r(1)] that(2) r(2) by simp
  show "map sfile_id rows' = map sfile_id rows" "map sfile_path rows' = map sfile_path rows"
    by (simp_all add: rows'_def comp_def if_distrib cong: if_cong)
  show "map (server_release ps agent_id) rows' = map (server_release (p # ps) agent_id) rows"
    unfolding rows'_def map_map
  proof (rule map_cong [OF refl])
    fix f assume f: "f \<in> set rows"
    show "(server_release ps agent_id \<circ> (\<lambda>f. if sfile_id f = sfile_id r
        then f\<lparr>sfile_locked := False, sfile_locked_by := None\<rparr> else f)) f =
        server_release (p # ps) agent_id f"
    proof (cases "sfile_id f = sfile_id r")
      case True
      with same [OF f] have "f = r" by simp
      with r show ?thesis by (simp add: server_release_def)
    next
      case False
      with same_path [OF f] have "sfile_path f \<noteq> p" by auto
      with False show ?thesis by (simp add: server_release_def)
    qed
  qed
  have rows': "set rows' = (\<lambda>f. if sfile_id f = sfile_id r
      then f\<lparr>sfile_locked := False, sfile_locked_by := None\<rparr> else f) ` set rows"
    by (simp add: rows'_def)
  show "server_own rows' agent_id q \<longleftrightarrow> server_own rows agent_id q \<and> q \<noteq> p"
  proof
    assume "server_own rows' agent_id q"
    then obtain f where f: "f \<in> set rows" "sfile_id f \<noteq> sfile_id r" "sfile_path f = q"
      "sfile_locked f" "sfile_locked_by f = Some agent_id"
      unfolding server_own_def rows' by (auto split: if_splits)
    from f(1,2) same_path have "q \<noteq> p" using f(3) by auto
    with f show "server_own rows agent_id q \<and> q \<noteq> p" unfolding server_own_def by auto
  next
    assume "server_own rows agent_id q \<and> q \<noteq> p"
    then obtain f where f: "f \<in> set rows" "sfile_path f = q" "sfile_locked f"
      "sfile_locked_by f = Some agent_id" and "q \<noteq> p"
      unfolding server_own_def by auto
    then have "sfile_id f \<noteq> sfile_id r" using same r(2) by auto
    with f show "server_own rows' agent_id q"
      unfolding server_own_def rows' by (intro bexI [of _ f]) auto
  qed
  show "server_foreign rows' agent_id q \<longleftrightarrow> server_foreign rows agent_id q"
  proof
    assume "server_foreign rows' agent_id q"
    then show "server_foreign rows agent_id q"
      unfolding server_foreign_def rows' by (auto split: if_splits)
  next
    assume "server_foreign rows agent_id q"
    then obtain f where f: "f \<in> set rows" "sfile_path f = q" "sfile_locked f"
      "sfile_locked_by f \<noteq> Some agent_id"
      unfolding server_foreign_def by auto
    then have "sfile_id f \<noteq> sfile_id r" using same r(4) by auto
    with f show "server_foreign rows' agent_id q"
      unfolding server_foreign_def rows' by (intro bexI [of _ f]) auto
  qed
  show "\<not> server_foreign rows agent_id p"
    unfolding server_foreign_def using same_path r(4) by auto
qed

lemma server_unlock_loop_result:
  assumes "distinct (map sfile_id rows)" and "distinct (map sfile_path rows)"
  shows "fst (server_unlock_loop ps agent_id rows released failed_files) =
        map (server_release ps agent_id) rows
    \<and> set (fst (snd (server_unlock_loop ps agent_id rows released failed_files))) =
        set released \<union> {p \<in> set ps. server_own rows agent_id p}
    \<and> map fst (snd (snd (server_unlock_loop ps agent_id rows released failed_files))) =
        map fst failed_files @ filter (server_foreign rows agent_id) ps"
  using assms
proof (induction ps arbitrary: rows released failed_files)
  case Nil
  have "map (server_release [] agent_id) rows = rows"
    by (simp add: server_release_def cong: map_cong)
  then show ?case by simp
next
  case (Cons p ps)
  note ids = Cons.prems(1) and paths = Cons.prems(2)
  show ?case
  proof (cases "find (\<lambda>f. sfile_path f = p \<and> sfile_locked f) rows")
    case None
    then have no_row: "\<not> (\<exists>f \<in> set rows. sfile_path f = p \<and> sfile_locked f)"
      by (simp add: find_None_iff)
    then have "\<not> server_own rows agent_id p" "\<not> server_foreign rows agent_id p"
      by (auto simp: server_own_def server_foreign_def)
    moreover have "map (server_release (p # ps) agent_id) rows =
        map (server_release ps agent_id) rows"
      using no_row by (intro map_cong [OF refl]) (auto simp: server_release_def)
    ultimately show ?thesis
      using Cons.IH [OF ids paths, of released failed_files] None by auto
  next
    case (Some r)
    from find_SomeD [OF Some] have r: "r \<in> set rows" "sfile_path r = p" "sfile_locked r"
      by simp_all
    have same_path: "f = r" if "f \<in> set rows" "sfile_path f = p" for f
      using distinct_map_eq [OF paths that(1) r(1)] that(2) r(2) by simp
    show ?thesis
    proof (cases "sfile_locked_by r = Some agent_id")
      case True
      let ?rows' = "map (\<lambda>f. if sfile_id f = sfile_id r
          then f\<lparr>sfile_locked := False, sfile_locked_by := None\<rparr> else f) rows"
      note row = server_unlock_row [OF ids paths r True]
      have ids': "distinct (map sfile_id ?rows')"
        unfolding row(1) by (rule ids)
      have paths': "distinct (map sfile_path ?rows')"
        unfolding row(2) by (rule paths)
      have own: "server_own rows agent_id p"
        unfolding server_own_def using r True by auto
      have step: "server_unlock_loop (p # ps) agent_id rows released failed_files =
          server_unlock_loop ps agent_id ?rows' (released @ [p]) failed_files"
        using Some True by simp
      have owns: "{q \<in> set ps. server_own ?rows' agent_id q} \<union> {p} =
          {q \<in> set (p # ps). server_own rows agent_id q}"
        using own by (auto simp: row(4))
      have foreign: "filter (server_foreign ?rows' agent_id) ps =
          filter (server_foreign rows agent_id) (p # ps)"
        using row(6) by (simp add: row(5) cong: filter_cong)
      from Cons.IH [OF ids' paths', of "released @ [p]" failed_files]
      show ?thesis
        unfolding step using row(3) [of ps] owns foreign by auto
    next
      case False
      have step: "server_unlock_loop (p # ps) agent_id rows released failed_files =
          server_unlock_loop ps agent_id rows released
            (failed_files @ [(p, sfile_locked_by r)])"
        using Some False by simp
      have foreign: "server_foreign rows agent_id p"
        unfolding server_foreign_def using r False by auto
      have not_own: "\<not> server_own rows agent_id p"
        unfolding server_own_def using same_path False by auto
      have rows: "map (server_release (p # ps) agent_id) rows =
          map (server_release ps agent_id) rows"
        using same_path False by (intro map_cong [OF refl]) (auto simp: server_release_def)
      from Cons.IH [OF ids paths, of released "failed_files @ [(p, sfile_locked_by r)]"]
      show ?thesis
        unfolding step using foreign not_own rows by auto
    qed
  qed
qed

text \<open>
  \<^verbatim>\<open>_unlock_files\<close> of \<^verbatim>\<open>server.py\<close> keeps C7 as well, on a \<^verbatim>\<open>files\<close> table whose ids
  and paths are distinct (the code inserts a path only when its lookup fails): the
  rows of the requested paths that the caller holds are unlocked and all others are
  left as they were, \<^verbatim>\<open>unlocked\<close> lists the released paths, and \<^verbatim>\<open>failed\<close> lists the
  requested paths held by somebody else. A path that is not locked appears in neither.
\<close>

lemma server_unlock_files_releases_own:
  assumes "distinct (map sfile_id (server_files s))"
    and "distinct (map sfile_path (server_files s))"
  shows "server_files (snd (server_unlock_files ps agent_id s)) =
        map (server_release ps agent_id) (server_files s)"
    and "set (reply_unlocked (fst (server_unlock_files ps agent_id s))) =
        {p \<in> set ps. server_own (server_files s) agent_id p}"
    and "map fst (reply_unlock_failed (fst (server_unlock_files ps agent_id s))) =
        filter (server_foreign (server_files s) agent_id) ps"
proof -
  obtain rows released failed_files where
    loop: "server_unlock_loop ps agent_id (server_files s) [] [] = (rows, released, failed_files)"
    by (cases "server_unlock_loop ps agent_id (server_files s) [] []") auto
  from server_unlock_loop_result [OF assms, of ps agent_id "[]" "[]"]
  show "server_files (snd (server_unlock_files ps agent_id s)) =
        map (server_release ps agent_id) (server_files s)"
    and "set (reply_unlocked (fst (server_unlock_files ps agent_id s))) =
        {p \<in> set ps. server_own (server_files s) agent_id p}"
    and "map fst (reply_unlock_failed (fst (server_unlock_files ps agent_id s))) =
        filter (server_foreign (server_files s) agent_id) ps"
    by (simp_all add: server_unlock_files_def loop)
qed

text \<open>
  With \<^verbatim>\<open>b\<close> held by \<^verbatim>\<open>agent2\<close>: \<^verbatim>\<open>agent1\<close> is refused and the row stays, an unknown
  path is passed over, and \<^verbatim>\<open>agent2\<close> releases its lock.
\<close>

lemma server_unlock_files_examples:
  "fst (server_unlock_files [''b'', ''q''] ''agent1'' server_locks_demo) =
     \<lparr>reply_unlocked = [], reply_unlock_failed = [(''b'', Some ''agent2'')]\<rparr>"
  "server_holder (snd (server_unlock_files [''b'', ''q''] ''agent1'' server_locks_demo)) ''b'' =
     Some ''agent2''"
  "fst (server_unlock_files [''b'', ''q''] ''agent2'' server_locks_demo) =
     \<lparr>reply_unlocked = [''b''], reply_unlock_failed = []\<rparr>"
  "server_holder (snd (server_unlock_files [''b'', ''q''] ''agent2'' server_locks_demo)) ''b'' =
     None"
  by code_simp+

section \<open>The lock condition of \<^verbatim>\<open>server.py\<close>\<close>

text \<open>
  In \<^verbatim>\<open>server.py\<close> the lock condition does not look at the holder: no file of a returned
  item is locked by anybody.
\<close>

lemma server_get_next_no_locked_file:
  assumes "fst (server_get_next_todo_item pname agent_id s) = Inr (Some (ti, files))"
  shows "\<forall>f \<in> set (server_files_of s (stodo_id ti)). \<not> sfile_locked f"
proof -
  from assms obtain p :: project_row and t :: server_task_row where
    "find (server_item_available s (server_completed_ids s (project_id p)))
        (server_project_todos s (project_id p)) = Some (t, ti)"
    by (auto simp: server_get_next_todo_item_def split: option.splits prod.splits)
  from find_SomeD [OF this]
  have "filter sfile_locked (server_files_of s (stodo_id ti)) = []"
    by (simp add: server_item_available_def)
  then show ?thesis by (simp add: filter_empty_conv)
qed


end
